theory Spec2Isabelle
  imports Main "HOL-Library.Word" "HOL-Library.Sublist"
begin

section \<open>The c2cx client of the exchange API: a shallow embedding of client.go\<close>

text \<open>
  The theory follows \<^verbatim>\<open>exchange/c2cx.com/client.go\<close>. The client sits between three
  collaborators: the remote gateway (the package functions \<^verbatim>\<open>CreateOrder\<close>,
  \<^verbatim>\<open>CancelOrder\<close>, \<^verbatim>\<open>GetBalance\<close>, \<^verbatim>\<open>GetOrderBook\<close>, \<^verbatim>\<open>GetOrderByStatus\<close>),
  the order tracker (\<^verbatim>\<open>exchange.OrderTracker\<close>) and the order-book tracker
  (\<^verbatim>\<open>exchange.OrderBookTracker\<close>). Every method of \<^verbatim>\<open>Client\<close> is a function that takes
  the client and the outside world and returns its Go results with the new client and world.
\<close>

subsection \<open>Values\<close>

text \<open>
  A \<^verbatim>\<open>float64\<close> is its IEEE-754 bit pattern: the client never computes with prices and
  amounts, it hands them on. A \<^verbatim>\<open>time.Time\<close> is an instant counted on the integers.
\<close>

type_synonym float64 = "64 word"
type_synonym Time = int

text \<open>
  The Go \<^verbatim>\<open>error\<close> values the client sees. \<open>CurrencyNotFound\<close> is the value built in
  \<^verbatim>\<open>Client.GetBalance\<close> by \<^verbatim>\<open>errors.Errorf("currency %s does not found", currency)\<close>; it
  carries the currency as the caller wrote it. The other three are the failures of the
  collaborators; what a gateway call returns as failure is any value of this type.
\<close>

datatype error =
    RemoteError string
  | InvalidSymbol string
  | NotTracked int
  | CurrencyNotFound string

text \<open>
  A call either returns its results or panics. The panics of this file are the
  dereference of \<^verbatim>\<open>nil\<close> by a method called on a tracker that is \<^verbatim>\<open>nil\<close>, and the one of
  \<^verbatim>\<open>time.NewTicker\<close>.
\<close>

datatype 'a go = Return 'a | Panic

subsection \<open>The order tracker\<close>

text \<open>
  Package \<^verbatim>\<open>exchange\<close>, with the order tracker, is not among the sources: its constants,
  its struct \<^verbatim>\<open>OrderInfo\<close> and the methods of \<^verbatim>\<open>OrderTracker\<close> are modelled from the spec,
  each under its own note. The status and side constants are strings in the code (the
  sweep switches on a \<^verbatim>\<open>string\<close> against them, so they are distinct).
\<close>

text \<open>Modelled from the spec: the constant \<^verbatim>\<open>exchange.StatusSubmitted\<close>, status submitted.\<close>

definition StatusSubmitted :: string where "StatusSubmitted = ''submitted''"

text \<open>Modelled from the spec: the constant \<^verbatim>\<open>exchange.StatusOpened\<close>, status opened.\<close>

definition StatusOpened :: string where "StatusOpened = ''opened''"

text \<open>
  Modelled from the spec: the constant \<^verbatim>\<open>exchange.StatusPartial\<close>, status partially-filled.
\<close>

definition StatusPartial :: string where "StatusPartial = ''partially-filled''"

text \<open>Modelled from the spec: the constant \<^verbatim>\<open>exchange.StatusCompleted\<close>, status completed.\<close>

definition StatusCompleted :: string where "StatusCompleted = ''completed''"

text \<open>Modelled from the spec: the constant \<^verbatim>\<open>exchange.StatusCancelled\<close>, status cancelled.\<close>

definition StatusCancelled :: string where "StatusCancelled = ''cancelled''"

text \<open>Modelled from the spec: the constant \<^verbatim>\<open>exchange.ActionBuy\<close>, side buy.\<close>

definition ActionBuy :: string where "ActionBuy = ''buy''"

text \<open>Modelled from the spec: the constant \<^verbatim>\<open>exchange.ActionSell\<close>, side sell.\<close>

definition ActionSell :: string where "ActionSell = ''sell''"

text \<open>
  Modelled from the spec: the struct \<^verbatim>\<open>exchange.OrderInfo\<close>. The fields \<open>OrderID\<close> and
  \<open>TradePair\<close> are read by client.go; the others are the attributes of an Order in the
  spec's data model (side, status, amount, price, createdAt, completedAt). \<open>CompletedAt\<close>
  is \<open>None\<close> until the order is completed.
\<close>

record OrderInfo =
  OrderID :: int
  TradePair :: string
  Side :: string
  Status :: string
  Amount :: float64
  Price :: float64
  CreatedAt :: Time
  CompletedAt :: "Time option"

text \<open>
  Modelled from the spec: the type \<^verbatim>\<open>exchange.OrderTracker\<close>. The spec describes a store
  keyed by order id, updated in place by id, that keeps terminal orders for lookup; it
  lists the operations newOrder, cancel, complete, updateDetails, get, status, executed
  and completed. The store is the list of its entries in the order of their registration,
  which is the order \<open>OrderTracker_Executed\<close> enumerates them in. An operation on an id
  without entry changes nothing (the spec leaves open whether updateDetails may create an
  entry; here no operation but newOrder does), and no operation looks at the status an
  entry has (the spec leaves open whether the tracker lets a terminal entry be
  overwritten; it describes cancel and complete as the transition to that status).
\<close>

type_synonym OrderTracker = "OrderInfo list"

text \<open>
  Modelled from the spec: \<^verbatim>\<open>OrderTracker.NewOrder\<close>, newOrder(symbol, side, status, id,
  amount, price). The entry of the id is the new one, created at the local submission time.
\<close>

definition OrderTracker_NewOrder ::
  "string \<Rightarrow> string \<Rightarrow> string \<Rightarrow> int \<Rightarrow> float64 \<Rightarrow> float64 \<Rightarrow> Time \<Rightarrow> OrderTracker \<Rightarrow> OrderTracker"
where
  "OrderTracker_NewOrder symbol side status orderID amount price now t =
     filter (\<lambda>r. OrderID r \<noteq> orderID) t @
       [\<lparr>OrderID = orderID, TradePair = symbol, Side = side, Status = status,
         Amount = amount, Price = price, CreatedAt = now, CompletedAt = None\<rparr>]"

text \<open>
  Modelled from the spec: \<^verbatim>\<open>OrderTracker.Cancel\<close>, cancel(id): the transition of the entry
  to cancelled.
\<close>

definition OrderTracker_Cancel :: "int \<Rightarrow> OrderTracker \<Rightarrow> OrderTracker" where
  "OrderTracker_Cancel orderID t =
     map (\<lambda>r. if OrderID r = orderID then r\<lparr>Status := StatusCancelled\<rparr> else r) t"

text \<open>
  Modelled from the spec: \<^verbatim>\<open>OrderTracker.Complete\<close>, complete(id, observedAt): the
  transition of the entry to completed, which sets its completion time.
\<close>

definition OrderTracker_Complete :: "int \<Rightarrow> Time \<Rightarrow> OrderTracker \<Rightarrow> OrderTracker" where
  "OrderTracker_Complete orderID at t =
     map (\<lambda>r. if OrderID r = orderID
               then r\<lparr>Status := StatusCompleted, CompletedAt := Some at\<rparr> else r) t"

text \<open>
  Modelled from the spec: \<^verbatim>\<open>OrderTracker.UpdateOrderDetails\<close>, updateDetails(id, symbol,
  createdAt): the entry gets the symbol and the creation time the venue reported.
\<close>

definition OrderTracker_UpdateOrderDetails ::
  "int \<Rightarrow> string \<Rightarrow> Time \<Rightarrow> OrderTracker \<Rightarrow> OrderTracker"
where
  "OrderTracker_UpdateOrderDetails orderID symbol accepted t =
     map (\<lambda>r. if OrderID r = orderID
               then r\<lparr>TradePair := symbol, CreatedAt := accepted\<rparr> else r) t"

text \<open>
  Modelled from the spec: \<^verbatim>\<open>OrderTracker.Get\<close>, get(id): the entry, or the failure
  \<open>NotTracked\<close> when there is none.
\<close>

definition OrderTracker_Get :: "int \<Rightarrow> OrderTracker \<Rightarrow> error + OrderInfo" where
  "OrderTracker_Get orderID t =
     (case find (\<lambda>r. OrderID r = orderID) t of
        None \<Rightarrow> Inl (NotTracked orderID)
      | Some r \<Rightarrow> Inr r)"

text \<open>
  Modelled from the spec: \<^verbatim>\<open>OrderTracker.Status\<close>, status(id): the status of the entry, or
  the failure \<open>NotTracked\<close>.
\<close>

definition OrderTracker_Status :: "int \<Rightarrow> OrderTracker \<Rightarrow> error + string" where
  "OrderTracker_Status orderID t =
     (case find (\<lambda>r. OrderID r = orderID) t of
        None \<Rightarrow> Inl (NotTracked orderID)
      | Some r \<Rightarrow> Inr (Status r))"

text \<open>The terminal statuses of the spec's state machine.\<close>

definition terminal :: "string \<Rightarrow> bool" where
  "terminal s \<longleftrightarrow> s = StatusCompleted \<or> s = StatusCancelled"

text \<open>
  Modelled from the spec: \<^verbatim>\<open>OrderTracker.Executed\<close>, executed(): the live orders, those
  not settled.
\<close>

definition OrderTracker_Executed :: "OrderTracker \<Rightarrow> OrderInfo list" where
  "OrderTracker_Executed t = filter (\<lambda>r. \<not> terminal (Status r)) t"

text \<open>Modelled from the spec: \<^verbatim>\<open>OrderTracker.Completed\<close>, completed(): the completed orders.\<close>

definition OrderTracker_Completed :: "OrderTracker \<Rightarrow> OrderInfo list" where
  "OrderTracker_Completed t = filter (\<lambda>r. Status r = StatusCompleted) t"

text \<open>The entries a tracker holds for an id.\<close>

definition entries :: "int \<Rightarrow> OrderTracker \<Rightarrow> OrderInfo list" where
  "entries orderID t = filter (\<lambda>r. OrderID r = orderID) t"

subsection \<open>The order-book tracker\<close>

text \<open>
  Modelled from the spec: the interface \<^verbatim>\<open>exchange.OrderBookTracker\<close> and the book it
  stores. The spec keeps one snapshot for each symbol, the bids and the asks, each a
  sequence of price and size.
\<close>

type_synonym Quote = "float64 \<times> float64"

record OrderBook =
  Bids :: "Quote list"
  Asks :: "Quote list"

type_synonym OrderBookTracker = "string \<rightharpoonup> OrderBook"

text \<open>
  Modelled from the spec: \<^verbatim>\<open>OrderBookTracker.UpdateSym\<close>, updateSymbol(symbol, bids, asks),
  which replaces the snapshot of its symbol as a whole.
\<close>

definition UpdateSym ::
  "string \<Rightarrow> Quote list \<Rightarrow> Quote list \<Rightarrow> OrderBookTracker \<Rightarrow> OrderBookTracker"
where
  "UpdateSym symb bids asks b = b(symb \<mapsto> \<lparr>Bids = bids, Asks = asks\<rparr>)"

subsection \<open>The remote gateway and the rest of package c2cx\<close>

text \<open>
  The other files of package \<^verbatim>\<open>c2cx\<close> and the package \<^verbatim>\<open>logger\<close> are not among the
  sources. What client.go uses of them is a parameter of every definition below: a record
  of the functions and tables. A call reads and changes the outside world \<open>'w\<close> (the venue,
  the clock and the log), about which nothing is assumed. \<open>CreateOrder\<close> is given the
  arguments client.go passes before its three \<^verbatim>\<open>nil\<close>s. \<open>allowed\<close> holds the polled symbols
  and \<open>Statusees\<close> the polled statuses, each in the order its \<^verbatim>\<open>range\<close> loop yields them.
  \<open>Now\<close> is \<^verbatim>\<open>time.Now\<close>, and \<open>Warningf\<close> is \<^verbatim>\<open>logger.Warningf\<close> with its format and the
  error it prints.
\<close>

datatype PriceType = PriceTypeMarket

record RemoteOrder =
  order_OrderID :: int
  order_CreateDate :: int

record 'w gateway =
  normalize :: "string \<Rightarrow> error + string"
  CreateOrder :: "string \<Rightarrow> string \<Rightarrow> string \<Rightarrow> string \<Rightarrow> PriceType \<Rightarrow> float64 \<Rightarrow> int \<Rightarrow> float64
                    \<Rightarrow> 'w \<Rightarrow> (error + int) \<times> 'w"
  CancelOrder :: "string \<Rightarrow> string \<Rightarrow> int \<Rightarrow> 'w \<Rightarrow> error option \<times> 'w"
  GetBalance :: "string \<Rightarrow> string \<Rightarrow> 'w \<Rightarrow> (error + (string \<rightharpoonup> string)) \<times> 'w"
  GetOrderBook :: "string \<Rightarrow> 'w \<Rightarrow> (error + OrderBook) \<times> 'w"
  GetOrderByStatus :: "string \<Rightarrow> string \<Rightarrow> string \<Rightarrow> string \<Rightarrow> int \<Rightarrow> 'w
                         \<Rightarrow> (error + RemoteOrder list) \<times> 'w"
  unixToTime :: "int \<Rightarrow> Time"
  allowed :: "string list"
  Statusees :: "string list"
  Now :: "'w \<Rightarrow> Time \<times> 'w"
  Warningf :: "string \<Rightarrow> error \<Rightarrow> 'w \<Rightarrow> 'w"

subsection \<open>The client\<close>

text \<open>
  The struct \<^verbatim>\<open>Client\<close>. \<open>Tracker\<close> is a pointer and \<open>OrderBookTracker\<close> an interface value:
  \<open>None\<close> is \<^verbatim>\<open>nil\<close>. \<open>sem\<close> is the channel of capacity one that \<^verbatim>\<open>Update\<close> makes: \<open>None\<close>
  before, then the number of tokens it buffers. The channel \<^verbatim>\<open>Stop\<close> is the \<open>stop\<close> event of
  the scheduler below; \<^verbatim>\<open>prevUpdate\<close> is never read or written. \<open>RefreshInterval\<close> is a
  \<^verbatim>\<open>time.Duration\<close>, an \<^verbatim>\<open>int64\<close>.
\<close>

record Client =
  Key :: string
  Secret :: string
  RefreshInterval :: "64 word"
  Tracker :: "OrderTracker option"
  OrderBookTracker :: "OrderBookTracker option"
  sem :: "nat option"

text \<open>
  \<^verbatim>\<open>Client.Cancel\<close>. The Go results \<^verbatim>\<open>(*OrderInfo, error)\<close> are a sum: \<open>Inl\<close> when the
  error is not nil, \<open>Inr\<close> the record otherwise.
\<close>

definition Cancel ::
  "'w gateway \<Rightarrow> int \<Rightarrow> Client \<Rightarrow> 'w \<Rightarrow> (error + OrderInfo) go \<times> Client \<times> 'w"
where
  "Cancel g orderID c w =
     (case CancelOrder g (Key c) (Secret c) orderID w of
        (Some err, w') \<Rightarrow> (Return (Inl err), c, w')
      | (None, w') \<Rightarrow>
          (case Tracker c of
             None \<Rightarrow> (Panic, c, w')
           | Some t \<Rightarrow>
               let t' = OrderTracker_Cancel orderID t
               in (Return (OrderTracker_Get orderID t'), c\<lparr>Tracker := Some t'\<rparr>, w')))"

text \<open>
  \<^verbatim>\<open>Client.Buy\<close> and \<^verbatim>\<open>Client.Sell\<close>. The tracker stamps a new entry with the time of its
  registration, read from the clock inside \<^verbatim>\<open>NewOrder\<close>.
\<close>

definition Buy ::
  "'w gateway \<Rightarrow> string \<Rightarrow> float64 \<Rightarrow> float64 \<Rightarrow> Client \<Rightarrow> 'w \<Rightarrow> (error + int) go \<times> Client \<times> 'w"
where
  "Buy g symbol price amount c w =
     (case normalize g symbol of
        Inl err \<Rightarrow> (Return (Inl err), c, w)
      | Inr symbol' \<Rightarrow>
          (case CreateOrder g (Key c) (Secret c) symbol' ''buy'' PriceTypeMarket amount 1 price w of
             (Inl err, w') \<Rightarrow> (Return (Inl err), c, w')
           | (Inr orderID, w') \<Rightarrow>
               (case Tracker c of
                  None \<Rightarrow> (Panic, c, w')
                | Some t \<Rightarrow>
                    (case Now g w' of
                       (now, w'') \<Rightarrow>
                         (Return (Inr orderID),
                          c\<lparr>Tracker := Some (OrderTracker_NewOrder symbol' ActionBuy
                                                 StatusSubmitted orderID amount price now t)\<rparr>,
                          w'')))))"

definition Sell ::
  "'w gateway \<Rightarrow> string \<Rightarrow> float64 \<Rightarrow> float64 \<Rightarrow> Client \<Rightarrow> 'w \<Rightarrow> (error + int) go \<times> Client \<times> 'w"
where
  "Sell g symbol price amount c w =
     (case normalize g symbol of
        Inl err \<Rightarrow> (Return (Inl err), c, w)
      | Inr symbol' \<Rightarrow>
          (case CreateOrder g (Key c) (Secret c) symbol' ''sell'' PriceTypeMarket amount 1 price w of
             (Inl err, w') \<Rightarrow> (Return (Inl err), c, w')
           | (Inr orderID, w') \<Rightarrow>
               (case Tracker c of
                  None \<Rightarrow> (Panic, c, w')
                | Some t \<Rightarrow>
                    (case Now g w' of
                       (now, w'') \<Rightarrow>
                         (Return (Inr orderID),
                          c\<lparr>Tracker := Some (OrderTracker_NewOrder symbol' ActionSell
                                                 StatusSubmitted orderID amount price now t)\<rparr>,
                          w'')))))"

text \<open>
  The two differ in the side they send and record, and are the same function of it.
\<close>

definition place ::
  "'w gateway \<Rightarrow> string \<Rightarrow> string \<Rightarrow> string \<Rightarrow> float64 \<Rightarrow> float64 \<Rightarrow> Client \<Rightarrow> 'w
     \<Rightarrow> (error + int) go \<times> Client \<times> 'w"
where
  "place g side action symbol price amount c w =
     (case normalize g symbol of
        Inl err \<Rightarrow> (Return (Inl err), c, w)
      | Inr symbol' \<Rightarrow>
          (case CreateOrder g (Key c) (Secret c) symbol' side PriceTypeMarket amount 1 price w of
             (Inl err, w') \<Rightarrow> (Return (Inl err), c, w')
           | (Inr orderID, w') \<Rightarrow>
               (case Tracker c of
                  None \<Rightarrow> (Panic, c, w')
                | Some t \<Rightarrow>
                    (case Now g w' of
                       (now, w'') \<Rightarrow>
                         (Return (Inr orderID),
                          c\<lparr>Tracker := Some (OrderTracker_NewOrder symbol' action StatusSubmitted
                                                 orderID amount price now t)\<rparr>,
                          w'')))))"

text \<open>
  \<^verbatim>\<open>Client.CancelAll\<close>: the loop over the orders that \<^verbatim>\<open>c.Tracker.Executed()\<close> returned,
  with the result list built so far. The Go results \<^verbatim>\<open>([]*OrderInfo, error)\<close> are a pair:
  the list is returned with the error too.
\<close>

fun cancelAllLoop ::
  "'w gateway \<Rightarrow> OrderInfo list \<Rightarrow> OrderInfo list \<Rightarrow> Client \<Rightarrow> 'w
     \<Rightarrow> (OrderInfo list \<times> error option) go \<times> Client \<times> 'w"
where
  "cancelAllLoop g [] result c w = (Return (result, None), c, w)"
| "cancelAllLoop g (v # vs) result c w =
     (case Cancel g (OrderID v) c w of
        (Panic, c', w') \<Rightarrow> (Panic, c', w')
      | (Return (Inl err), c', w') \<Rightarrow> (Return (result, Some err), c', w')
      | (Return (Inr info), c', w') \<Rightarrow> cancelAllLoop g vs (result @ [info]) c' w')"

definition CancelAll ::
  "'w gateway \<Rightarrow> Client \<Rightarrow> 'w \<Rightarrow> (OrderInfo list \<times> error option) go \<times> Client \<times> 'w"
where
  "CancelAll g c w =
     (case Tracker c of
        None \<Rightarrow> (Panic, c, w)
      | Some t \<Rightarrow> cancelAllLoop g (OrderTracker_Executed t) [] c w)"

text \<open>
  \<^verbatim>\<open>Client.CancelMarket\<close>: the same loop, cancelling the orders of the symbol only. When
  \<^verbatim>\<open>normalize\<close> fails the list returned is \<^verbatim>\<open>nil\<close>, the empty list.
\<close>

fun cancelMarketLoop ::
  "'w gateway \<Rightarrow> string \<Rightarrow> OrderInfo list \<Rightarrow> OrderInfo list \<Rightarrow> Client \<Rightarrow> 'w
     \<Rightarrow> (OrderInfo list \<times> error option) go \<times> Client \<times> 'w"
where
  "cancelMarketLoop g symbol [] result c w = (Return (result, None), c, w)"
| "cancelMarketLoop g symbol (v # vs) result c w =
     (if TradePair v = symbol
      then (case Cancel g (OrderID v) c w of
              (Panic, c', w') \<Rightarrow> (Panic, c', w')
            | (Return (Inl err), c', w') \<Rightarrow> (Return (result, Some err), c', w')
            | (Return (Inr info), c', w') \<Rightarrow>
                cancelMarketLoop g symbol vs (result @ [info]) c' w')
      else cancelMarketLoop g symbol vs result c w)"

definition CancelMarket ::
  "'w gateway \<Rightarrow> string \<Rightarrow> Client \<Rightarrow> 'w
     \<Rightarrow> (OrderInfo list \<times> error option) go \<times> Client \<times> 'w"
where
  "CancelMarket g symbol c w =
     (case normalize g symbol of
        Inl err \<Rightarrow> (Return ([], Some err), c, w)
      | Inr symbol' \<Rightarrow>
          (case Tracker c of
             None \<Rightarrow> (Panic, c, w)
           | Some t \<Rightarrow> cancelMarketLoop g symbol' (OrderTracker_Executed t) [] c w))"

text \<open>The introspection methods, which read the tracker.\<close>

definition OrderStatus :: "int \<Rightarrow> Client \<Rightarrow> (error + string) go" where
  "OrderStatus orderID c =
     (case Tracker c of None \<Rightarrow> Panic | Some t \<Rightarrow> Return (OrderTracker_Status orderID t))"

definition OrderDetails :: "int \<Rightarrow> Client \<Rightarrow> (error + OrderInfo) go" where
  "OrderDetails orderID c =
     (case Tracker c of None \<Rightarrow> Panic | Some t \<Rightarrow> Return (OrderTracker_Get orderID t))"

definition Executed :: "Client \<Rightarrow> OrderInfo list go" where
  "Executed c = (case Tracker c of None \<Rightarrow> Panic | Some t \<Rightarrow> Return (OrderTracker_Executed t))"

definition Completed :: "Client \<Rightarrow> OrderInfo list go" where
  "Completed c = (case Tracker c of None \<Rightarrow> Panic | Some t \<Rightarrow> Return (OrderTracker_Completed t))"

definition OrderBook :: "Client \<Rightarrow> OrderBookTracker option" where
  "OrderBook c = OrderBookTracker c"




subsection \<open>The sweep tasks\<close>

text \<open>
  The goroutine of lines 160 to 169, one for each symbol of a book sweep. It has two
  effects, the fetch and the update of the order-book tracker; \<open>bookTask\<close> is the two in
  a row. A method called on a \<^verbatim>\<open>nil\<close> interface panics.
\<close>

definition bookStore :: "string \<Rightarrow> OrderBook \<Rightarrow> Client \<Rightarrow> unit go \<times> Client" where
  "bookStore symb orders c =
     (case OrderBookTracker c of
        None \<Rightarrow> (Panic, c)
      | Some b \<Rightarrow>
          (Return (), c\<lparr>OrderBookTracker := Some (UpdateSym symb (Bids orders) (Asks orders) b)\<rparr>))"

definition bookTask :: "'w gateway \<Rightarrow> string \<Rightarrow> Client \<Rightarrow> 'w \<Rightarrow> unit go \<times> Client \<times> 'w" where
  "bookTask g symb c w =
     (case GetOrderBook g symb w of
        (Inl err, w') \<Rightarrow> (Return (), c, w')
      | (Inr orders, w') \<Rightarrow> (case bookStore symb orders c of (r, c') \<Rightarrow> (r, c', w')))"

text \<open>
  The body of the loop of lines 188 to 198: what a status task does with one order the
  venue returned. The arguments of \<^verbatim>\<open>Complete\<close> are evaluated before the call, so the clock
  is read first.
\<close>

definition applyOrder ::
  "'w gateway \<Rightarrow> string \<Rightarrow> string \<Rightarrow> RemoteOrder \<Rightarrow> Client \<Rightarrow> 'w \<Rightarrow> unit go \<times> Client \<times> 'w"
where
  "applyOrder g symbol status order c w =
     (let accepted = unixToTime g (order_CreateDate order) in
      if status = StatusOpened \<or> status = StatusPartial then
        (case Tracker c of
           None \<Rightarrow> (Panic, c, w)
         | Some t \<Rightarrow>
             (Return (),
              c\<lparr>Tracker := Some (OrderTracker_UpdateOrderDetails (order_OrderID order) symbol
                                    accepted t)\<rparr>, w))
      else if status = StatusCancelled then
        (case Tracker c of
           None \<Rightarrow> (Panic, c, w)
         | Some t \<Rightarrow>
             (Return (), c\<lparr>Tracker := Some (OrderTracker_Cancel (order_OrderID order) t)\<rparr>, w))
      else if status = StatusCompleted then
        (case Now g w of
           (now, w') \<Rightarrow>
             (case Tracker c of
                None \<Rightarrow> (Panic, c, w')
              | Some t \<Rightarrow>
                  (Return (),
                   c\<lparr>Tracker := Some (OrderTracker_Complete (order_OrderID order) now t)\<rparr>,
                   w')))
      else (Return (), c, w))"

fun applyOrders ::
  "'w gateway \<Rightarrow> string \<Rightarrow> string \<Rightarrow> RemoteOrder list \<Rightarrow> Client \<Rightarrow> 'w
     \<Rightarrow> unit go \<times> Client \<times> 'w"
where
  "applyOrders g symbol status [] c w = (Return (), c, w)"
| "applyOrders g symbol status (order # orders) c w =
     (case applyOrder g symbol status order c w of
        (Panic, c', w') \<Rightarrow> (Panic, c', w')
      | (Return u, c', w') \<Rightarrow> applyOrders g symbol status orders c' w')"

text \<open>
  The goroutine of lines 181 to 199, one for each symbol and status of an order-status
  sweep: the fetch, which logs a failure and returns nothing then, and the loop.
\<close>

definition statusFetch ::
  "'w gateway \<Rightarrow> string \<Rightarrow> string \<Rightarrow> Client \<Rightarrow> 'w \<Rightarrow> RemoteOrder list option \<times> 'w"
where
  "statusFetch g symbol status c w =
     (case GetOrderByStatus g (Key c) (Secret c) symbol status (- 1) w of
        (Inl err, w') \<Rightarrow> (None, Warningf g ''c2cx: update order info failed %s'' err w')
      | (Inr orders, w') \<Rightarrow> (Some orders, w'))"

definition statusTask ::
  "'w gateway \<Rightarrow> string \<Rightarrow> string \<Rightarrow> Client \<Rightarrow> 'w \<Rightarrow> unit go \<times> Client \<times> 'w"
where
  "statusTask g symbol status c w =
     (case statusFetch g symbol status c w of
        (None, w') \<Rightarrow> (Return (), c, w')
      | (Some orders, w') \<Rightarrow> applyOrders g symbol status orders c w')"

text \<open>
  The tasks of one cycle run to their end one after the other, in the order given: the
  tasks of a book sweep, over the symbols, and the tasks of an order-status sweep, over
  the pairs of a symbol and a status. \<open>statusPairs\<close> is the order of the two loops of
  lines 179 and 180.
\<close>

fun bookTasks :: "'w gateway \<Rightarrow> string list \<Rightarrow> Client \<Rightarrow> 'w \<Rightarrow> unit go \<times> Client \<times> 'w" where
  "bookTasks g [] c w = (Return (), c, w)"
| "bookTasks g (symb # symbs) c w =
     (case bookTask g symb c w of
        (Panic, c', w') \<Rightarrow> (Panic, c', w')
      | (Return u, c', w') \<Rightarrow> bookTasks g symbs c' w')"

fun statusTasks ::
  "'w gateway \<Rightarrow> (string \<times> string) list \<Rightarrow> Client \<Rightarrow> 'w \<Rightarrow> unit go \<times> Client \<times> 'w"
where
  "statusTasks g [] c w = (Return (), c, w)"
| "statusTasks g ((symbol, status) # pairs) c w =
     (case statusTask g symbol status c w of
        (Panic, c', w') \<Rightarrow> (Panic, c', w')
      | (Return u, c', w') \<Rightarrow> statusTasks g pairs c' w')"

definition statusPairs :: "'w gateway \<Rightarrow> (string \<times> string) list" where
  "statusPairs g = concat (map (\<lambda>symbol. map (Pair symbol) (Statusees g)) (allowed g))"

text \<open>The results the fetches of \<open>bookTasks\<close> get, one for each symbol, in their order.\<close>

fun bookFetches :: "'w gateway \<Rightarrow> string list \<Rightarrow> 'w \<Rightarrow> (error + OrderBook) list" where
  "bookFetches g [] w = []"
| "bookFetches g (symb # symbs) w =
     (case GetOrderBook g symb w of (r, w') \<Rightarrow> r # bookFetches g symbs w')"

subsection \<open>The scheduler and its goroutines\<close>

text \<open>
  \<^verbatim>\<open>Client.Update\<close> and \<^verbatim>\<open>Client.checkUpdate\<close> start goroutines, so a run of \<^verbatim>\<open>Update\<close>
  is a transition system. Its state holds the client, the world and every goroutine with
  the place it has reached:
  \<^item> the scheduler, the goroutine of \<^verbatim>\<open>Update\<close>: in the \<^verbatim>\<open>select\<close> of line 211, or in
    \<^verbatim>\<open>wg.Wait()\<close> of line 202 with the status tasks that have not called \<^verbatim>\<open>w.Done()\<close>,
    or returned after \<^verbatim>\<open>Stop\<close>;
  \<^item> the book sweeps, the goroutines of lines 155 to 173: before the send on \<^verbatim>\<open>c.sem\<close>
    of line 156, or past it, up to the receive of line 172, with the book tasks that have
    not called \<^verbatim>\<open>w.Done()\<close>;
  \<^item> a book task before its fetch or before its update; a status task before its fetch
    or in its loop, with the orders it has yet to treat.
  A panic in any goroutine ends the program: the state is marked and makes no more steps.
\<close>

datatype book_task = BookFetch string | BookStore string OrderBook

datatype book_sweep = Acquiring | Fetching "book_task list"

datatype status_task = StatusFetch string string | StatusApply string string "RemoteOrder list"

datatype scheduler = Selecting | Waiting "status_task list" | Returned

record 'w system =
  client :: Client
  world :: 'w
  scheduler :: scheduler
  sweeps :: "book_sweep list"
  crashed :: bool

text \<open>
  \<^verbatim>\<open>Update\<close> makes the channel, empty, makes the ticker and enters its loop. The period of
  the ticker is the product \<^verbatim>\<open>c.RefreshInterval * time.Millisecond\<close> in \<^verbatim>\<open>int64\<close>, which
  wraps around; \<^verbatim>\<open>time.NewTicker\<close> panics when it is not positive. No goroutine of an earlier
  run is in flight.
\<close>

definition period :: "Client \<Rightarrow> int" where
  "period c = sint (RefreshInterval c * 1000000)"

definition Update :: "Client \<Rightarrow> 'w \<Rightarrow> 'w system" where
  "Update c w =
     \<lparr>client = c\<lparr>sem := Some 0\<rparr>, world = w, scheduler = Selecting, sweeps = [],
      crashed = (period c \<le> 0)\<rparr>"

text \<open>
  \<^verbatim>\<open>checkUpdate\<close> up to its \<^verbatim>\<open>wg.Wait()\<close>: it starts a book sweep when there is an order-book
  tracker, and the status tasks, for which it then waits, when there is an order tracker.
\<close>

definition checkUpdate :: "'w gateway \<Rightarrow> 'w system \<Rightarrow> 'w system" where
  "checkUpdate g s =
     s\<lparr>sweeps := sweeps s @ (if OrderBookTracker (client s) \<noteq> None then [Acquiring] else []),
       scheduler :=
         (if Tracker (client s) \<noteq> None
          then Waiting (map (\<lambda>(symbol, status). StatusFetch symbol status) (statusPairs g))
          else Selecting)\<rparr>"

inductive step :: "'w gateway \<Rightarrow> 'w system \<Rightarrow> 'w system \<Rightarrow> bool" for g :: "'w gateway" where
  tick:
    "\<not> crashed s \<Longrightarrow> scheduler s = Selecting \<Longrightarrow> step g s (checkUpdate g s)"
| stop:
    "\<not> crashed s \<Longrightarrow> scheduler s = Selecting \<Longrightarrow> step g s (s\<lparr>scheduler := Returned\<rparr>)"
| barrier:
    "\<not> crashed s \<Longrightarrow> scheduler s = Waiting [] \<Longrightarrow> step g s (s\<lparr>scheduler := Selecting\<rparr>)"
| acquire:
    "\<not> crashed s \<Longrightarrow> sweeps s = xs @ Acquiring # ys \<Longrightarrow> sem (client s) = Some 0 \<Longrightarrow>
     step g s (s\<lparr>client := (client s)\<lparr>sem := Some 1\<rparr>,
                 sweeps := xs @ Fetching (map BookFetch (allowed g)) # ys\<rparr>)"
| release:
    "\<not> crashed s \<Longrightarrow> sweeps s = xs @ Fetching [] # ys \<Longrightarrow> sem (client s) = Some (Suc n) \<Longrightarrow>
     step g s (s\<lparr>client := (client s)\<lparr>sem := Some n\<rparr>, sweeps := xs @ ys\<rparr>)"
| book_fetch_failed:
    "\<not> crashed s \<Longrightarrow> sweeps s = xs @ Fetching (ts @ BookFetch symb # us) # ys \<Longrightarrow>
     GetOrderBook g symb (world s) = (Inl err, w') \<Longrightarrow>
     step g s (s\<lparr>world := w', sweeps := xs @ Fetching (ts @ us) # ys\<rparr>)"
| book_fetched:
    "\<not> crashed s \<Longrightarrow> sweeps s = xs @ Fetching (ts @ BookFetch symb # us) # ys \<Longrightarrow>
     GetOrderBook g symb (world s) = (Inr orders, w') \<Longrightarrow>
     step g s (s\<lparr>world := w', sweeps := xs @ Fetching (ts @ BookStore symb orders # us) # ys\<rparr>)"
| book_stored:
    "\<not> crashed s \<Longrightarrow> sweeps s = xs @ Fetching (ts @ BookStore symb orders # us) # ys \<Longrightarrow>
     bookStore symb orders (client s) = (r, c') \<Longrightarrow>
     step g s (s\<lparr>client := c', sweeps := xs @ Fetching (ts @ us) # ys, crashed := (r = Panic)\<rparr>)"
| status_fetch_failed:
    "\<not> crashed s \<Longrightarrow> scheduler s = Waiting (ts @ StatusFetch symbol status # us) \<Longrightarrow>
     statusFetch g symbol status (client s) (world s) = (None, w') \<Longrightarrow>
     step g s (s\<lparr>world := w', scheduler := Waiting (ts @ us)\<rparr>)"
| status_fetched:
    "\<not> crashed s \<Longrightarrow> scheduler s = Waiting (ts @ StatusFetch symbol status # us) \<Longrightarrow>
     statusFetch g symbol status (client s) (world s) = (Some orders, w') \<Longrightarrow>
     step g s (s\<lparr>world := w', scheduler := Waiting (ts @ StatusApply symbol status orders # us)\<rparr>)"
| status_applied:
    "\<not> crashed s \<Longrightarrow>
     scheduler s = Waiting (ts @ StatusApply symbol status (order # orders) # us) \<Longrightarrow>
     applyOrder g symbol status order (client s) (world s) = (r, c', w') \<Longrightarrow>
     step g s (s\<lparr>client := c', world := w',
                 scheduler := Waiting (ts @ StatusApply symbol status orders # us),
                 crashed := (r = Panic)\<rparr>)"
| status_done:
    "\<not> crashed s \<Longrightarrow> scheduler s = Waiting (ts @ StatusApply symbol status [] # us) \<Longrightarrow>
     step g s (s\<lparr>scheduler := Waiting (ts @ us)\<rparr>)"

text \<open>The states a run of \<^verbatim>\<open>Update\<close> on client \<open>c\<close> in world \<open>w\<close> can reach.\<close>

inductive reachable :: "'w gateway \<Rightarrow> Client \<Rightarrow> 'w \<Rightarrow> 'w system \<Rightarrow> bool"
  for g :: "'w gateway" and c :: Client and w :: 'w
where
  at_start: "reachable g c w (Update c w)"
| after_step: "reachable g c w s \<Longrightarrow> step g s s' \<Longrightarrow> reachable g c w s'"


fun tasks_of :: "book_sweep \<Rightarrow> book_task list" where
  "tasks_of Acquiring = []"
| "tasks_of (Fetching ts) = ts"




definition tasks_in_flight :: "'w system \<Rightarrow> book_task list" where
  "tasks_in_flight s = concat (map tasks_of (sweeps s))"

subsection \<open>A venue to run the client against\<close>

text \<open>
  A world that counts the calls made and keeps the warnings logged, and a gateway on it:
  the symbol \<^verbatim>\<open>btc_usdt\<close> is known but every remote call about it fails, order 2 cannot
  be cancelled, order ids are given from 42 on, the clock shows the number of calls made,
  and the venue reports order 42 as completed.
\<close>

record World =
  calls :: nat
  warnings :: "(string \<times> error) list"

definition called :: "World \<Rightarrow> World" where
  "called w = w\<lparr>calls := Suc (calls w)\<rparr>"

definition venue_book :: OrderBook where
  "venue_book = \<lparr>Bids = [(0x4059000000000000, 0x3FF0000000000000)],
                  Asks = [(0x4059400000000000, 0x4000000000000000)]\<rparr>"

definition venue :: "World gateway" where
  "venue =
     \<lparr>normalize = (\<lambda>s. if s = ''ETH_USDT'' \<or> s = ''eth_usdt'' then Inr ''eth_usdt''
                       else if s = ''btc_usdt'' then Inr ''btc_usdt''
                       else Inl (InvalidSymbol s)),
      CreateOrder = (\<lambda>key secret symbol side kind amount qty price w.
                       (if symbol = ''btc_usdt'' then Inl (RemoteError ''market closed'')
                        else Inr (42 + int (calls w)), called w)),
      CancelOrder = (\<lambda>key secret orderID w.
                       (if orderID = 2 then Some (RemoteError ''cancel refused'') else None,
                        called w)),
      GetBalance = (\<lambda>key secret w. (Inr [''btc'' \<mapsto> ''1.5'', ''USDT'' \<mapsto> ''7''], called w)),
      GetOrderBook = (\<lambda>symbol w.
                       (if symbol = ''btc_usdt'' then Inl (RemoteError ''timeout'')
                        else Inr venue_book, called w)),
      GetOrderByStatus = (\<lambda>key secret symbol status limit w.
                       (if symbol = ''btc_usdt'' then Inl (RemoteError ''timeout'')
                        else if status = StatusCompleted
                        then Inr [\<lparr>order_OrderID = 42, order_CreateDate = 1500000000\<rparr>]
                        else Inr [], called w)),
      unixToTime = (\<lambda>s. s * 1000000000),
      allowed = [''btc_usdt'', ''eth_usdt''],
      Statusees = [StatusOpened, StatusPartial, StatusCancelled, StatusCompleted],
      Now = (\<lambda>w. (int (calls w), called w)),
      Warningf = (\<lambda>format err w. w\<lparr>warnings := warnings w @ [(format, err)]\<rparr>)\<rparr>"

definition world0 :: World where
  "world0 = \<lparr>calls = 0, warnings = []\<rparr>"

text \<open>A client with both trackers, empty, and a client that follows the order books only.\<close>

definition client0 :: Client where
  "client0 = \<lparr>Key = ''key'', Secret = ''secret'', RefreshInterval = 1000,
               Tracker = Some [], OrderBookTracker = Some Map.empty, sem = None\<rparr>"

definition book_client :: Client where
  "book_client = client0\<lparr>Tracker := None\<rparr>"

text \<open>
  A tracker with three live orders on one symbol, and the client that placed them.
\<close>

definition three_orders :: OrderTracker where
  "three_orders =
     [\<lparr>OrderID = 1, TradePair = ''eth_usdt'', Side = ActionBuy, Status = StatusOpened,
       Amount = 0x3FF0000000000000, Price = 0x4059000000000000, CreatedAt = 10,
       CompletedAt = None\<rparr>,
      \<lparr>OrderID = 2, TradePair = ''eth_usdt'', Side = ActionSell, Status = StatusSubmitted,
       Amount = 0x3FF0000000000000, Price = 0x4059400000000000, CreatedAt = 11,
       CompletedAt = None\<rparr>,
      \<lparr>OrderID = 3, TradePair = ''eth_usdt'', Side = ActionBuy, Status = StatusPartial,
       Amount = 0x4000000000000000, Price = 0x4059000000000000, CreatedAt = 12,
       CompletedAt = None\<rparr>]"

definition trading_client :: Client where
  "trading_client = client0\<lparr>Tracker := Some three_orders\<rparr>"

subsection \<open>What a batch cancellation comes to\<close>

text \<open>
  The outcome \<open>out\<close> of the cancellation loop over the orders \<open>vs\<close>, started on client
  \<open>c\<close> with tracker \<open>t\<close> in world \<open>w\<close>: the orders are cancelled in turn up to the first
  failure. This is the statement of the lemma on the loop, not code.
\<close>

definition cancelled_in_turn ::
  "'w gateway \<Rightarrow> OrderInfo list \<Rightarrow> Client \<Rightarrow> 'w \<Rightarrow> OrderTracker
     \<Rightarrow> (OrderInfo list \<times> error option) go \<times> Client \<times> 'w \<Rightarrow> bool"
where
  "cancelled_in_turn g vs c w t out \<longleftrightarrow>
     (\<exists>res err c' w' t'.
        out = (Return (res, err), c', w') \<and> Tracker c' = Some t' \<and>
        length res \<le> length vs \<and>
        (\<forall>k<length res. OrderID (res ! k) = OrderID (vs ! k) \<and>
                          Status (res ! k) = StatusCancelled) \<and>
        (err = None \<longrightarrow> length res = length vs) \<and>
        (\<forall>e. err = Some e \<longrightarrow>
           length res < length vs \<and>
           (\<exists>ck wk. cancelAllLoop g (take (length res) vs) [] c w = (Return (res, None), ck, wk) \<and>
                    Cancel g (OrderID (vs ! length res)) ck wk = (Return (Inl e), c', w'))) \<and>
        (\<forall>j. j \<notin> OrderID ` set (take (length res) vs) \<longrightarrow> entries j t' = entries j t) \<and>
        (\<forall>j\<in>OrderID ` set (take (length res) vs). \<forall>r\<in>set (entries j t'). Status r = StatusCancelled))"

text \<open>
  The client after it bought on \<^verbatim>\<open>ETH_USDT\<close> and the venue gave order 42, the same client
  once the order is completed, and once it is cancelled.
\<close>

definition order42 :: OrderInfo where
  "order42 =
     \<lparr>OrderID = 42, TradePair = ''eth_usdt'', Side = ActionBuy, Status = StatusSubmitted,
      Amount = 0x3FF0000000000000, Price = 0x4059000000000000, CreatedAt = 1,
      CompletedAt = None\<rparr>"

definition placed_client :: Client where
  "placed_client = client0\<lparr>Tracker := Some [order42]\<rparr>"




text \<open>
  Three states of a run of the client that follows the order books only: after the first
  tick, after its book sweep took the token, and after a second tick.
\<close>

definition one_tick :: "World system" where
  "one_tick =
     \<lparr>client = book_client\<lparr>sem := Some 0\<rparr>, world = world0, scheduler = Selecting,
      sweeps = [Acquiring], crashed = False\<rparr>"

definition sweeping :: "World system" where
  "sweeping =
     \<lparr>client = book_client\<lparr>sem := Some 1\<rparr>, world = world0, scheduler = Selecting,
      sweeps = [Fetching [BookFetch ''btc_usdt'', BookFetch ''eth_usdt'']], crashed = False\<rparr>"

definition two_ticks :: "World system" where
  "two_ticks =
     \<lparr>client = book_client\<lparr>sem := Some 1\<rparr>, world = world0, scheduler = Selecting,
      sweeps = [Fetching [BookFetch ''btc_usdt'', BookFetch ''eth_usdt''], Acquiring],
      crashed = False\<rparr>"

subsection \<open>Invariants of a run\<close>

text \<open>
  Three properties of the states of a run, which every step keeps; they are statements
  about the transition system, not code. \<open>guarded\<close>: a book sweep exists only with an
  order-book tracker, and the scheduler waits for status tasks only with an order
  tracker. \<open>token\<close>: the channel buffers one token for each sweep in
  flight, and there is at most one. \<open>polled\<close>: the symbols of the book tasks in flight are
  among the polled symbols, in their order, each no more often than it is polled.
\<close>

definition guarded :: "'w system \<Rightarrow> bool" where
  "guarded s \<longleftrightarrow>
     (sweeps s \<noteq> [] \<longrightarrow> OrderBookTracker (client s) \<noteq> None) \<and>
     (\<forall>ts. scheduler s = Waiting ts \<longrightarrow> Tracker (client s) \<noteq> None)"



text \<open>
  A fourth property of the states of a run: a book task that is about to store a snapshot
  got it from a fetch for its symbol. And the snapshot a symbol has after a fetch with
  result \<open>r\<close>, when it had \<open>old\<close> before.
\<close>

definition fetched :: "'w gateway \<Rightarrow> 'w system \<Rightarrow> bool" where
  "fetched g s \<longleftrightarrow>
     (\<forall>symb orders. BookStore symb orders \<in> set (tasks_in_flight s) \<longrightarrow>
        (\<exists>w w'. GetOrderBook g symb w = (Inr orders, w')))"

definition snapshot_after :: "error + OrderBook \<Rightarrow> OrderBook option \<Rightarrow> OrderBook option" where
  "snapshot_after r old =
     (case r of Inl err \<Rightarrow> old | Inr orders \<Rightarrow> Some \<lparr>Bids = Bids orders, Asks = Asks orders\<rparr>)"

text \<open>A client whose order-book tracker holds a snapshot for both polled symbols.\<close>

definition old_book :: OrderBook where
  "old_book = \<lparr>Bids = [(0x4058C00000000000, 0x3FF0000000000000)], Asks = []\<rparr>"

definition books_client :: Client where
  "books_client =
     client0\<lparr>OrderBookTracker := Some [''btc_usdt'' \<mapsto> old_book, ''eth_usdt'' \<mapsto> old_book]\<rparr>"

section \<open>Properties\<close>

subsection \<open>Placing an order\<close>

lemma entries_NewOrder_same:
  "entries i (OrderTracker_NewOrder symbol side status i amount price now t) =
     [\<lparr>OrderID = i, TradePair = symbol, Side = side, Status = status,
       Amount = amount, Price = price, CreatedAt = now, CompletedAt = None\<rparr>]"
  by (simp add: entries_def OrderTracker_NewOrder_def)

lemma entries_NewOrder_other:
  "j \<noteq> i \<Longrightarrow>
   entries j (OrderTracker_NewOrder symbol side status i amount price now t) = entries j t"
  by (induction t) (auto simp add: entries_def OrderTracker_NewOrder_def)

lemma Buy_place: "Buy g symbol price amount c w = place g ''buy'' ActionBuy symbol price amount c w"
  by (simp add: Buy_def place_def)

lemma Sell_place:
  "Sell g symbol price amount c w = place g ''sell'' ActionSell symbol price amount c w"
  by (simp add: Sell_def place_def)

lemma place_remote_fails:
  "normalize g symbol = Inr symbol' \<Longrightarrow>
   CreateOrder g (Key c) (Secret c) symbol' side PriceTypeMarket amount 1 price w = (Inl err, w') \<Longrightarrow>
   place g side action symbol price amount c w = (Return (Inl err), c, w')"
  by (simp add: place_def)

lemma place_remote_succeeds:
  "normalize g symbol = Inr symbol' \<Longrightarrow>
   CreateOrder g (Key c) (Secret c) symbol' side PriceTypeMarket amount 1 price w = (Inr i, w') \<Longrightarrow>
   Tracker c = Some t \<Longrightarrow>
   place g side action symbol price amount c w =
     (Return (Inr i),
      c\<lparr>Tracker := Some (OrderTracker_NewOrder symbol' action StatusSubmitted i amount price
                            (fst (Now g w')) t)\<rparr>,
      snd (Now g w'))"
  by (simp add: place_def split: prod.splits)

lemma place_cases:
  assumes "normalize g symbol = Inr symbol'"
  shows "(\<forall>err w'. CreateOrder g (Key c) (Secret c) symbol' side PriceTypeMarket amount 1 price w
                       = (Inl err, w')
            \<longrightarrow> place g side action symbol price amount c w = (Return (Inl err), c, w')) \<and>
         (\<forall>i w' t. CreateOrder g (Key c) (Secret c) symbol' side PriceTypeMarket amount 1 price w
                      = (Inr i, w') \<and> Tracker c = Some t
            \<longrightarrow> (\<exists>t'. place g side action symbol price amount c w
                         = (Return (Inr i), c\<lparr>Tracker := Some t'\<rparr>, snd (Now g w')) \<and>
                       entries i t' =
                         [\<lparr>OrderID = i, TradePair = symbol', Side = action,
                           Status = StatusSubmitted, Amount = amount, Price = price,
                           CreatedAt = fst (Now g w'), CompletedAt = None\<rparr>] \<and>
                       (\<forall>j. j \<noteq> i \<longrightarrow> entries j t' = entries j t)))"
proof (intro conjI allI impI)
  fix err w'
  assume "CreateOrder g (Key c) (Secret c) symbol' side PriceTypeMarket amount 1 price w
            = (Inl err, w')"
  with assms show "place g side action symbol price amount c w = (Return (Inl err), c, w')"
    by (rule place_remote_fails)
next
  fix i w' t
  assume h: "CreateOrder g (Key c) (Secret c) symbol' side PriceTypeMarket amount 1 price w
               = (Inr i, w') \<and> Tracker c = Some t"
  let ?t' = "OrderTracker_NewOrder symbol' action StatusSubmitted i amount price
               (fst (Now g w')) t"
  have "place g side action symbol price amount c w
          = (Return (Inr i), c\<lparr>Tracker := Some ?t'\<rparr>, snd (Now g w'))"
    using assms h by (simp add: place_remote_succeeds)
  moreover have "entries i ?t' =
      [\<lparr>OrderID = i, TradePair = symbol', Side = action, Status = StatusSubmitted,
        Amount = amount, Price = price, CreatedAt = fst (Now g w'), CompletedAt = None\<rparr>]"
    by (rule entries_NewOrder_same)
  moreover have "\<forall>j. j \<noteq> i \<longrightarrow> entries j ?t' = entries j t"
    by (simp add: entries_NewOrder_other)
  ultimately show "\<exists>t'. place g side action symbol price amount c w
                         = (Return (Inr i), c\<lparr>Tracker := Some t'\<rparr>, snd (Now g w')) \<and>
                       entries i t' =
                         [\<lparr>OrderID = i, TradePair = symbol', Side = action,
                           Status = StatusSubmitted, Amount = amount, Price = price,
                           CreatedAt = fst (Now g w'), CompletedAt = None\<rparr>] \<and>
                       (\<forall>j. j \<noteq> i \<longrightarrow> entries j t' = entries j t)"
    by blast
qed

text \<open>
  C1. \<^verbatim>\<open>Buy\<close> and \<^verbatim>\<open>Sell\<close> are atomic. Once the symbol is normalised, when the remote
  placement fails the gateway's error is returned as it is and the client, so the tracker,
  is what it was; when it succeeds, on a client with a tracker, the id is returned and the
  tracker holds exactly one entry with this id: status submitted, the normalised symbol,
  the side, the amount and the price of the call. The entries of the other ids are what
  they were.
\<close>

theorem Place_atomic:
  assumes "normalize g symbol = Inr symbol'"
  shows
    "(\<forall>err w'. CreateOrder g (Key c) (Secret c) symbol' ''buy'' PriceTypeMarket amount 1 price w
                   = (Inl err, w')
         \<longrightarrow> Buy g symbol price amount c w = (Return (Inl err), c, w')) \<and>
     (\<forall>i w' t. CreateOrder g (Key c) (Secret c) symbol' ''buy'' PriceTypeMarket amount 1 price w
                   = (Inr i, w') \<and> Tracker c = Some t
         \<longrightarrow> (\<exists>t'. Buy g symbol price amount c w
                      = (Return (Inr i), c\<lparr>Tracker := Some t'\<rparr>, snd (Now g w')) \<and>
                    entries i t' =
                      [\<lparr>OrderID = i, TradePair = symbol', Side = ActionBuy,
                        Status = StatusSubmitted, Amount = amount, Price = price,
                        CreatedAt = fst (Now g w'), CompletedAt = None\<rparr>] \<and>
                    (\<forall>j. j \<noteq> i \<longrightarrow> entries j t' = entries j t))) \<and>
     (\<forall>err w'. CreateOrder g (Key c) (Secret c) symbol' ''sell'' PriceTypeMarket amount 1 price w
                   = (Inl err, w')
         \<longrightarrow> Sell g symbol price amount c w = (Return (Inl err), c, w')) \<and>
     (\<forall>i w' t. CreateOrder g (Key c) (Secret c) symbol' ''sell'' PriceTypeMarket amount 1 price w
                   = (Inr i, w') \<and> Tracker c = Some t
         \<longrightarrow> (\<exists>t'. Sell g symbol price amount c w
                      = (Return (Inr i), c\<lparr>Tracker := Some t'\<rparr>, snd (Now g w')) \<and>
                    entries i t' =
                      [\<lparr>OrderID = i, TradePair = symbol', Side = ActionSell,
                        Status = StatusSubmitted, Amount = amount, Price = price,
                        CreatedAt = fst (Now g w'), CompletedAt = None\<rparr>] \<and>
                    (\<forall>j. j \<noteq> i \<longrightarrow> entries j t' = entries j t)))"
  using place_cases [OF assms, of c "''buy''" amount price w ActionBuy]
        place_cases [OF assms, of c "''sell''" amount price w ActionSell]
  unfolding Buy_place Sell_place by blast

theorem Place_atomic_witness:
  "normalize venue ''ETH_USDT'' = Inr ''eth_usdt'' \<and>
   (\<exists>t'. Buy venue ''ETH_USDT'' 0x4059000000000000 0x3FF0000000000000 client0 world0
            = (Return (Inr 42), client0\<lparr>Tracker := Some t'\<rparr>, \<lparr>calls = 2, warnings = []\<rparr>) \<and>
          entries 42 t' =
            [\<lparr>OrderID = 42, TradePair = ''eth_usdt'', Side = ActionBuy, Status = StatusSubmitted,
              Amount = 0x3FF0000000000000, Price = 0x4059000000000000, CreatedAt = 1,
              CompletedAt = None\<rparr>])"
proof -
  have n: "normalize venue ''ETH_USDT'' = Inr ''eth_usdt''"
    by (simp add: venue_def)
  have r: "CreateOrder venue (Key client0) (Secret client0) ''eth_usdt'' ''buy'' PriceTypeMarket
             0x3FF0000000000000 1 0x4059000000000000 world0
           = (Inr 42, \<lparr>calls = 1, warnings = []\<rparr>) \<and> Tracker client0 = Some []"
    by (simp add: venue_def world0_def called_def client0_def)
  have t: "Now venue \<lparr>calls = 1, warnings = []\<rparr> = (1, \<lparr>calls = 2, warnings = []\<rparr>)"
    by (simp add: venue_def called_def)
  from Place_atomic [OF n, of client0 "0x3FF0000000000000" "0x4059000000000000" world0] r
  obtain t' where
    "Buy venue ''ETH_USDT'' 0x4059000000000000 0x3FF0000000000000 client0 world0
       = (Return (Inr 42), client0\<lparr>Tracker := Some t'\<rparr>,
          snd (Now venue \<lparr>calls = 1, warnings = []\<rparr>))"
    "entries 42 t' =
       [\<lparr>OrderID = 42, TradePair = ''eth_usdt'', Side = ActionBuy, Status = StatusSubmitted,
         Amount = 0x3FF0000000000000, Price = 0x4059000000000000,
         CreatedAt = fst (Now venue \<lparr>calls = 1, warnings = []\<rparr>), CompletedAt = None\<rparr>]"
    by blast
  with n t show ?thesis by (intro conjI exI [of _ t']) simp_all
qed

subsection \<open>Cancelling an order\<close>

lemmas venue_simps =
  venue_def world0_def called_def client0_def trading_client_def three_orders_def
  StatusSubmitted_def StatusOpened_def StatusPartial_def StatusCompleted_def
  StatusCancelled_def ActionBuy_def ActionSell_def terminal_def

lemma entries_Cancel_same:
  "entries i (OrderTracker_Cancel i t) = map (\<lambda>r. r\<lparr>Status := StatusCancelled\<rparr>) (entries i t)"
  by (induction t) (simp_all add: entries_def OrderTracker_Cancel_def)

lemma entries_Cancel_other:
  "j \<noteq> i \<Longrightarrow> entries j (OrderTracker_Cancel i t) = entries j t"
  by (induction t) (simp_all add: entries_def OrderTracker_Cancel_def)

lemma Cancel_untracked: "entries i t = [] \<Longrightarrow> OrderTracker_Cancel i t = t"
  by (induction t) (simp_all add: entries_def OrderTracker_Cancel_def split: if_splits)

lemma find_entries:
  "find (\<lambda>r. OrderID r = i) t = (case entries i t of [] \<Rightarrow> None | r # rs \<Rightarrow> Some r)"
  by (induction t) (simp_all add: entries_def)

lemma Get_entries:
  "OrderTracker_Get i t = (case entries i t of [] \<Rightarrow> Inl (NotTracked i) | r # rs \<Rightarrow> Inr r)"
  by (simp add: OrderTracker_Get_def find_entries split: list.splits)

lemma Cancel_remote_fails:
  "CancelOrder g (Key c) (Secret c) i w = (Some err, w') \<Longrightarrow>
   Cancel g i c w = (Return (Inl err), c, w')"
  by (simp add: Cancel_def)

lemma Cancel_remote_succeeds:
  "CancelOrder g (Key c) (Secret c) i w = (None, w') \<Longrightarrow> Tracker c = Some t \<Longrightarrow>
   Cancel g i c w =
     (Return (OrderTracker_Get i (OrderTracker_Cancel i t)),
      c\<lparr>Tracker := Some (OrderTracker_Cancel i t)\<rparr>, w')"
  by (simp add: Cancel_def Let_def)

text \<open>
  C2. \<^verbatim>\<open>Cancel\<close> on a client with a tracker. When the remote cancel call fails, its error
  is returned and the client, so the tracker, is what it was. When it succeeds and the
  tracker has an entry for the id, the entry is moved to cancelled, the record read back
  is returned, and the entries of the other ids are what they were. When it succeeds and
  the tracker has no entry for the id, the call fails with \<open>NotTracked\<close>, the client is
  what it was, and the world is the one the cancel call left: nothing else was done to it.
\<close>

theorem Cancel_cases:
  assumes "Tracker c = Some t"
  shows
    "(\<forall>err w'. CancelOrder g (Key c) (Secret c) i w = (Some err, w')
        \<longrightarrow> Cancel g i c w = (Return (Inl err), c, w')) \<and>
     (\<forall>w' r rs. CancelOrder g (Key c) (Secret c) i w = (None, w') \<and> entries i t = r # rs
        \<longrightarrow> (\<exists>t'. Cancel g i c w
                     = (Return (Inr (r\<lparr>Status := StatusCancelled\<rparr>)), c\<lparr>Tracker := Some t'\<rparr>, w') \<and>
                   OrderTracker_Get i t' = Inr (r\<lparr>Status := StatusCancelled\<rparr>) \<and>
                   entries i t' = map (\<lambda>r. r\<lparr>Status := StatusCancelled\<rparr>) (entries i t) \<and>
                   (\<forall>j. j \<noteq> i \<longrightarrow> entries j t' = entries j t))) \<and>
     (\<forall>w'. CancelOrder g (Key c) (Secret c) i w = (None, w') \<and> entries i t = []
        \<longrightarrow> Cancel g i c w = (Return (Inl (NotTracked i)), c, w'))"
proof (intro conjI allI impI)
  fix err w'
  assume "CancelOrder g (Key c) (Secret c) i w = (Some err, w')"
  then show "Cancel g i c w = (Return (Inl err), c, w')"
    by (rule Cancel_remote_fails)
next
  fix w' r rs
  assume h: "CancelOrder g (Key c) (Secret c) i w = (None, w') \<and> entries i t = r # rs"
  let ?t' = "OrderTracker_Cancel i t"
  have e: "entries i ?t' = map (\<lambda>r. r\<lparr>Status := StatusCancelled\<rparr>) (entries i t)"
    by (rule entries_Cancel_same)
  with h have g: "OrderTracker_Get i ?t' = Inr (r\<lparr>Status := StatusCancelled\<rparr>)"
    by (simp add: Get_entries)
  have "Cancel g i c w = (Return (Inr (r\<lparr>Status := StatusCancelled\<rparr>)), c\<lparr>Tracker := Some ?t'\<rparr>, w')"
    using h assms g by (simp add: Cancel_remote_succeeds)
  moreover have "\<forall>j. j \<noteq> i \<longrightarrow> entries j ?t' = entries j t"
    by (simp add: entries_Cancel_other)
  ultimately show "\<exists>t'. Cancel g i c w
                     = (Return (Inr (r\<lparr>Status := StatusCancelled\<rparr>)), c\<lparr>Tracker := Some t'\<rparr>, w') \<and>
                   OrderTracker_Get i t' = Inr (r\<lparr>Status := StatusCancelled\<rparr>) \<and>
                   entries i t' = map (\<lambda>r. r\<lparr>Status := StatusCancelled\<rparr>) (entries i t) \<and>
                   (\<forall>j. j \<noteq> i \<longrightarrow> entries j t' = entries j t)"
    using g e by blast
next
  fix w'
  assume h: "CancelOrder g (Key c) (Secret c) i w = (None, w') \<and> entries i t = []"
  then have "OrderTracker_Cancel i t = t"
    by (simp add: Cancel_untracked)
  moreover have "c\<lparr>Tracker := Some t\<rparr> = c"
    using assms by simp
  ultimately show "Cancel g i c w = (Return (Inl (NotTracked i)), c, w')"
    using h assms by (simp add: Cancel_remote_succeeds Get_entries)
qed

theorem Cancel_cases_witness:
  "Tracker trading_client = Some three_orders \<and>
   Cancel venue 2 trading_client world0
     = (Return (Inl (RemoteError ''cancel refused'')), trading_client, \<lparr>calls = 1, warnings = []\<rparr>) \<and>
   Cancel venue 7 trading_client world0
     = (Return (Inl (NotTracked 7)), trading_client, \<lparr>calls = 1, warnings = []\<rparr>) \<and>
   (\<exists>t'. Cancel venue 3 trading_client world0
            = (Return (Inr ((three_orders ! 2)\<lparr>Status := StatusCancelled\<rparr>)),
               trading_client\<lparr>Tracker := Some t'\<rparr>, \<lparr>calls = 1, warnings = []\<rparr>) \<and>
          entries 1 t' = entries 1 three_orders)"
proof -
  have h: "Tracker trading_client = Some three_orders"
    by (simp add: trading_client_def)
  have r2: "CancelOrder venue (Key trading_client) (Secret trading_client) 2 world0
              = (Some (RemoteError ''cancel refused''), \<lparr>calls = 1, warnings = []\<rparr>)"
    by (simp add: venue_def world0_def called_def)
  have r7: "CancelOrder venue (Key trading_client) (Secret trading_client) 7 world0
              = (None, \<lparr>calls = 1, warnings = []\<rparr>) \<and> entries 7 three_orders = []"
    by (simp add: venue_def world0_def called_def entries_def three_orders_def)
  have r3: "CancelOrder venue (Key trading_client) (Secret trading_client) 3 world0
              = (None, \<lparr>calls = 1, warnings = []\<rparr>) \<and>
            entries 3 three_orders = three_orders ! 2 # []"
    by (simp add: venue_def world0_def called_def entries_def three_orders_def)
  from Cancel_cases [OF h, of venue 2 world0] r2
  have "Cancel venue 2 trading_client world0
     = (Return (Inl (RemoteError ''cancel refused'')), trading_client, \<lparr>calls = 1, warnings = []\<rparr>)"
    by blast
  moreover from Cancel_cases [OF h, of venue 7 world0] r7
  have "Cancel venue 7 trading_client world0
     = (Return (Inl (NotTracked 7)), trading_client, \<lparr>calls = 1, warnings = []\<rparr>)"
    by blast
  moreover have "\<exists>t'. Cancel venue 3 trading_client world0
            = (Return (Inr ((three_orders ! 2)\<lparr>Status := StatusCancelled\<rparr>)),
               trading_client\<lparr>Tracker := Some t'\<rparr>, \<lparr>calls = 1, warnings = []\<rparr>) \<and>
          entries 1 t' = entries 1 three_orders"
  proof -
    from Cancel_cases [OF h, of venue 3 world0] r3 obtain t' where
      a: "Cancel venue 3 trading_client world0
            = (Return (Inr ((three_orders ! 2)\<lparr>Status := StatusCancelled\<rparr>)),
               trading_client\<lparr>Tracker := Some t'\<rparr>, \<lparr>calls = 1, warnings = []\<rparr>)" and
      b: "\<forall>j. j \<noteq> 3 \<longrightarrow> entries j t' = entries j three_orders"
      by blast
    from b have "entries 1 t' = entries 1 three_orders"
      by simp
    with a show ?thesis
      by blast
  qed
  ultimately show ?thesis
    using h by blast
qed

subsection \<open>Cancelling the live orders\<close>

lemma Cancel_tracked:
  assumes "Tracker c = Some t" and "Cancel g i c w = (out, c', w')"
  shows "(\<exists>e. out = Return (Inl e) \<and> c' = c) \<or>
         (\<exists>r. out = Return (Inr r) \<and> OrderID r = i \<and> Status r = StatusCancelled \<and>
              c' = c\<lparr>Tracker := Some (OrderTracker_Cancel i t)\<rparr>)"
proof (cases "CancelOrder g (Key c) (Secret c) i w")
  case (Pair e w1)
  show ?thesis
  proof (cases e)
    case (Some err)
    with Pair assms show ?thesis by (auto simp add: Cancel_remote_fails)
  next
    case None
    with Pair assms have
      *: "out = Return (OrderTracker_Get i (OrderTracker_Cancel i t))"
         "c' = c\<lparr>Tracker := Some (OrderTracker_Cancel i t)\<rparr>"
      by (simp_all add: Cancel_remote_succeeds)
    show ?thesis
    proof (cases "entries i t")
      case Nil
      then have "OrderTracker_Cancel i t = t" by (rule Cancel_untracked)
      with * Nil assms show ?thesis by (simp add: Get_entries)
    next
      case (Cons r rs)
      then have "entries i (OrderTracker_Cancel i t) =
                   r\<lparr>Status := StatusCancelled\<rparr> # map (\<lambda>r. r\<lparr>Status := StatusCancelled\<rparr>) rs"
        by (simp add: entries_Cancel_same)
      moreover from Cons have "r \<in> set (entries i t)" by simp
      then have "OrderID r = i" by (simp add: entries_def)
      ultimately show ?thesis using * by (simp add: Get_entries)
    qed
  qed
qed

lemma cancelAllLoop_result:
  "cancelAllLoop g vs result c w =
     (case cancelAllLoop g vs [] c w of
        (Panic, c', w') \<Rightarrow> (Panic, c', w')
      | (Return (res, err), c', w') \<Rightarrow> (Return (result @ res, err), c', w'))"
proof (induction vs arbitrary: result c w)
  case Nil
  show ?case by simp
next
  case (Cons v vs)
  show ?case
  proof (cases "Cancel g (OrderID v) c w")
    case (fields out c1 w1)
    show ?thesis
    proof (cases out)
      case Panic
      with fields show ?thesis by simp
    next
      case (Return x)
      show ?thesis
      proof (cases x)
        case (Inl e)
        with Return fields show ?thesis by simp
      next
        case (Inr info)
        have "cancelAllLoop g (v # vs) result c w = cancelAllLoop g vs (result @ [info]) c1 w1"
          using Inr Return fields by simp
        also have "\<dots> = (case cancelAllLoop g vs [] c1 w1 of
                            (Panic, c', w') \<Rightarrow> (Panic, c', w')
                          | (Return (res, err), c', w') \<Rightarrow> (Return ((result @ [info]) @ res, err), c', w'))"
          by (rule Cons.IH)
        finally have l: "cancelAllLoop g (v # vs) result c w =
                          (case cancelAllLoop g vs [] c1 w1 of
                            (Panic, c', w') \<Rightarrow> (Panic, c', w')
                          | (Return (res, err), c', w') \<Rightarrow> (Return ((result @ [info]) @ res, err), c', w'))" .
        have "cancelAllLoop g (v # vs) [] c w = cancelAllLoop g vs [info] c1 w1"
          using Inr Return fields by simp
        also have "\<dots> = (case cancelAllLoop g vs [] c1 w1 of
                            (Panic, c', w') \<Rightarrow> (Panic, c', w')
                          | (Return (res, err), c', w') \<Rightarrow> (Return ([info] @ res, err), c', w'))"
          by (rule Cons.IH)
        finally have r: "cancelAllLoop g (v # vs) [] c w =
                          (case cancelAllLoop g vs [] c1 w1 of
                            (Panic, c', w') \<Rightarrow> (Panic, c', w')
                          | (Return (res, err), c', w') \<Rightarrow> (Return ([info] @ res, err), c', w'))" .
        show ?thesis
          unfolding l r by (simp split: prod.splits go.splits)
      qed
    qed
  qed
qed

lemma cancelMarketLoop_filter:
  "cancelMarketLoop g symbol vs result c w =
     cancelAllLoop g (filter (\<lambda>v. TradePair v = symbol) vs) result c w"
  by (induction vs arbitrary: result c w) (simp_all split: prod.splits go.splits sum.splits)

lemma cancelAllLoop_in_turn:
  "Tracker c = Some t \<Longrightarrow> cancelled_in_turn g vs c w t (cancelAllLoop g vs [] c w)"
proof (induction vs arbitrary: c w t)
  case Nil
  then show ?case by (simp add: cancelled_in_turn_def)
next
  case (Cons v vs)
  obtain out c1 w1 where step: "Cancel g (OrderID v) c w = (out, c1, w1)"
    by (cases "Cancel g (OrderID v) c w") auto
  from Cancel_tracked [OF Cons.prems step]
  consider (failed) e where "out = Return (Inl e)" "c1 = c"
    | (cancelled) r where "out = Return (Inr r)" "OrderID r = OrderID v"
        "Status r = StatusCancelled"
        "c1 = c\<lparr>Tracker := Some (OrderTracker_Cancel (OrderID v) t)\<rparr>"
    by blast
  then show ?case
  proof cases
    case failed
    have "cancelAllLoop g (v # vs) [] c w = (Return ([], Some e), c, w1)"
      using step failed by simp
    moreover have "Cancel g (OrderID ((v # vs) ! 0)) c w = (Return (Inl e), c, w1)"
      using step failed by simp
    ultimately show ?thesis
      using Cons.prems by (simp add: cancelled_in_turn_def)
  next
    case cancelled
    let ?t1 = "OrderTracker_Cancel (OrderID v) t"
    have t1: "Tracker c1 = Some ?t1"
      using cancelled by simp
    from Cons.IH [OF t1, of w1] obtain res err c' w' t' where
      out: "cancelAllLoop g vs [] c1 w1 = (Return (res, err), c', w')" and
      tr: "Tracker c' = Some t'" and
      len: "length res \<le> length vs" and
      ids: "\<forall>k<length res. OrderID (res ! k) = OrderID (vs ! k) \<and>
                             Status (res ! k) = StatusCancelled" and
      all: "err = None \<longrightarrow> length res = length vs" and
      stop: "\<forall>e. err = Some e \<longrightarrow>
               length res < length vs \<and>
               (\<exists>ck wk. cancelAllLoop g (take (length res) vs) [] c1 w1
                           = (Return (res, None), ck, wk) \<and>
                        Cancel g (OrderID (vs ! length res)) ck wk = (Return (Inl e), c', w'))" and
      other: "\<forall>j. j \<notin> OrderID ` set (take (length res) vs) \<longrightarrow> entries j t' = entries j ?t1" and
      fin: "\<forall>j\<in>OrderID ` set (take (length res) vs). \<forall>r\<in>set (entries j t'). Status r = StatusCancelled"
      unfolding cancelled_in_turn_def by blast
    have shift: "cancelAllLoop g (v # us) [] c w =
                   (case cancelAllLoop g us [] c1 w1 of
                      (Panic, c', w') \<Rightarrow> (Panic, c', w')
                    | (Return (res, err), c', w') \<Rightarrow> (Return (r # res, err), c', w'))" for us
    proof -
      have "cancelAllLoop g (v # us) [] c w = cancelAllLoop g us [r] c1 w1"
        using step cancelled by simp
      also have "\<dots> = (case cancelAllLoop g us [] c1 w1 of
                          (Panic, c', w') \<Rightarrow> (Panic, c', w')
                        | (Return (res, err), c', w') \<Rightarrow> (Return ([r] @ res, err), c', w'))"
        by (rule cancelAllLoop_result)
      finally show ?thesis
        by (simp only: append_Cons append_Nil)
    qed
    have 1: "cancelAllLoop g (v # vs) [] c w = (Return (r # res, err), c', w')"
      unfolding shift out by simp
    have 2: "length (r # res) \<le> length (v # vs)"
      using len by simp
    have 3: "\<forall>k<length (r # res). OrderID ((r # res) ! k) = OrderID ((v # vs) ! k) \<and>
                                   Status ((r # res) ! k) = StatusCancelled"
    proof (intro allI impI)
      fix k assume "k < length (r # res)"
      then show "OrderID ((r # res) ! k) = OrderID ((v # vs) ! k) \<and>
                 Status ((r # res) ! k) = StatusCancelled"
        using ids cancelled by (cases k) simp_all
    qed
    have 4: "err = None \<longrightarrow> length (r # res) = length (v # vs)"
      using all by simp
    have 5: "\<forall>e. err = Some e \<longrightarrow>
               length (r # res) < length (v # vs) \<and>
               (\<exists>ck wk. cancelAllLoop g (take (length (r # res)) (v # vs)) [] c w
                           = (Return (r # res, None), ck, wk) \<and>
                        Cancel g (OrderID ((v # vs) ! length (r # res))) ck wk
                           = (Return (Inl e), c', w'))"
    proof (intro allI impI)
      fix e assume "err = Some e"
      with stop obtain ck wk where
        a: "length res < length vs" and
        b: "cancelAllLoop g (take (length res) vs) [] c1 w1 = (Return (res, None), ck, wk)" and
        c: "Cancel g (OrderID (vs ! length res)) ck wk = (Return (Inl e), c', w')"
        by blast
      have tk: "take (length (r # res)) (v # vs) = v # take (length res) vs"
        by simp
      have "cancelAllLoop g (take (length (r # res)) (v # vs)) [] c w
              = (Return (r # res, None), ck, wk)"
        unfolding tk shift b by simp
      with a c show "length (r # res) < length (v # vs) \<and>
               (\<exists>ck wk. cancelAllLoop g (take (length (r # res)) (v # vs)) [] c w
                           = (Return (r # res, None), ck, wk) \<and>
                        Cancel g (OrderID ((v # vs) ! length (r # res))) ck wk
                           = (Return (Inl e), c', w'))"
        by auto
    qed
    have 6: "\<forall>j. j \<notin> OrderID ` set (take (length (r # res)) (v # vs)) \<longrightarrow>
                 entries j t' = entries j t"
    proof (intro allI impI)
      fix j assume "j \<notin> OrderID ` set (take (length (r # res)) (v # vs))"
      then have "j \<noteq> OrderID v" and "j \<notin> OrderID ` set (take (length res) vs)"
        by auto
      then show "entries j t' = entries j t"
        using other by (simp add: entries_Cancel_other)
    qed
    have 7: "\<forall>j\<in>OrderID ` set (take (length (r # res)) (v # vs)).
               \<forall>r\<in>set (entries j t'). Status r = StatusCancelled"
    proof (intro ballI)
      fix j x
      assume j: "j \<in> OrderID ` set (take (length (r # res)) (v # vs))"
         and x: "x \<in> set (entries j t')"
      show "Status x = StatusCancelled"
      proof (cases "j \<in> OrderID ` set (take (length res) vs)")
        case True
        with fin x show ?thesis by blast
      next
        case False
        with j have "j = OrderID v" by auto
        moreover from False other have "entries j t' = entries j ?t1" by blast
        ultimately have "x \<in> set (map (\<lambda>r. r\<lparr>Status := StatusCancelled\<rparr>) (entries j t))"
          using x by (simp add: entries_Cancel_same)
        then show ?thesis by auto
      qed
    qed
    show ?thesis
      unfolding cancelled_in_turn_def
      using 1 tr 2 3 4 5 6 7 by blast
  qed
qed

lemma CancelAll_loop:
  "Tracker c = Some t \<Longrightarrow> CancelAll g c w = cancelAllLoop g (OrderTracker_Executed t) [] c w"
  by (simp add: CancelAll_def)

lemma CancelMarket_loop:
  "Tracker c = Some t \<Longrightarrow> normalize g symbol = Inr symbol' \<Longrightarrow>
   CancelMarket g symbol c w =
     cancelAllLoop g (filter (\<lambda>v. TradePair v = symbol') (OrderTracker_Executed t)) [] c w"
  by (simp add: CancelMarket_def cancelMarketLoop_filter)

text \<open>
  C5. \<^verbatim>\<open>CancelAll\<close> and \<^verbatim>\<open>CancelMarket\<close> go through the orders \<open>vs\<close> the tracker lists as
  executed (\<^verbatim>\<open>CancelMarket\<close>: those of the normalised symbol) and cancel them in turn.
  They return the records of the orders cancelled, which are the first orders of \<open>vs\<close>
  in their order. Without error all of \<open>vs\<close> is cancelled. With an error, the orders before
  the failing one were cancelled without error, the cancellation of the next one failed with
  the error returned, and the loop ended there: every order that is not among those
  cancelled is in the tracker as it was, so the orders after the failure remain live.
\<close>

theorem CancelAll_CancelMarket_partial:
  assumes "Tracker c = Some t"
    and "(vs, out) = (OrderTracker_Executed t, CancelAll g c w) \<or>
         (normalize g symbol = Inr symbol' \<and>
          (vs, out) = (filter (\<lambda>v. TradePair v = symbol') (OrderTracker_Executed t),
                       CancelMarket g symbol c w))"
  shows
    "\<exists>res err c' w' t'.
        out = (Return (res, err), c', w') \<and> Tracker c' = Some t' \<and>
        length res \<le> length vs \<and>
        (\<forall>k<length res. OrderID (res ! k) = OrderID (vs ! k) \<and>
                          Status (res ! k) = StatusCancelled) \<and>
        (err = None \<longrightarrow> length res = length vs) \<and>
        (\<forall>e. err = Some e \<longrightarrow>
           length res < length vs \<and>
           (\<exists>ck wk. cancelAllLoop g (take (length res) vs) [] c w = (Return (res, None), ck, wk) \<and>
                    Cancel g (OrderID (vs ! length res)) ck wk = (Return (Inl e), c', w'))) \<and>
        (\<forall>j. j \<notin> OrderID ` set (take (length res) vs) \<longrightarrow> entries j t' = entries j t) \<and>
        (\<forall>j\<in>OrderID ` set (take (length res) vs). \<forall>r\<in>set (entries j t'). Status r = StatusCancelled)"
proof -
  from assms have "out = cancelAllLoop g vs [] c w"
    by (auto simp add: CancelAll_loop CancelMarket_loop)
  with cancelAllLoop_in_turn [OF assms(1), of g vs w] show ?thesis
    unfolding cancelled_in_turn_def by simp
qed

text \<open>
  The scenario of the spec: three live orders on \<^verbatim>\<open>eth_usdt\<close>, the venue refuses to cancel
  the second. The result has one element and an error; orders 2 and 3 are as they were.
\<close>

lemma CancelMarket_three_orders: "CancelMarket venue ''ETH_USDT'' trading_client world0 =
   (Return ([\<lparr>OrderID = 1, TradePair = ''eth_usdt'', Side = ActionBuy, Status = StatusCancelled,
       Amount = 0x3FF0000000000000, Price = 0x4059000000000000, CreatedAt = 10,
       CompletedAt = None\<rparr>], Some (RemoteError ''cancel refused'')),
    trading_client\<lparr>Tracker := Some (OrderTracker_Cancel 1 three_orders)\<rparr>,
    \<lparr>calls = 2, warnings = []\<rparr>)"
  by (simp add: CancelMarket_def Cancel_def OrderTracker_Executed_def OrderTracker_Cancel_def
        OrderTracker_Get_def venue_simps)

theorem CancelAll_CancelMarket_partial_witness:
  "Tracker trading_client = Some three_orders \<and>
   normalize venue ''ETH_USDT'' = Inr ''eth_usdt'' \<and>
   (\<exists>res err c' w' t'.
      CancelMarket venue ''ETH_USDT'' trading_client world0 = (Return (res, err), c', w') \<and>
      Tracker c' = Some t' \<and> length res = 1 \<and> err = Some (RemoteError ''cancel refused'') \<and>
      OrderID (res ! 0) = 1 \<and> Status (res ! 0) = StatusCancelled \<and>
      entries 2 t' = entries 2 three_orders \<and> entries 3 t' = entries 3 three_orders)"
proof -
  have h1: "Tracker trading_client = Some three_orders"
    by (simp add: trading_client_def)
  have h2: "normalize venue ''ETH_USDT'' = Inr ''eth_usdt''"
    by (simp add: venue_def)
  have vs: "filter (\<lambda>v. TradePair v = ''eth_usdt'') (OrderTracker_Executed three_orders)
              = three_orders"
    by (simp add: OrderTracker_Executed_def venue_simps)
  have "(three_orders, CancelMarket venue ''ETH_USDT'' trading_client world0)
          = (OrderTracker_Executed three_orders, CancelAll venue trading_client world0) \<or>
        (normalize venue ''ETH_USDT'' = Inr ''eth_usdt'' \<and>
         (three_orders, CancelMarket venue ''ETH_USDT'' trading_client world0)
           = (filter (\<lambda>v. TradePair v = ''eth_usdt'') (OrderTracker_Executed three_orders),
              CancelMarket venue ''ETH_USDT'' trading_client world0))"
    using h2 vs by simp
  from CancelAll_CancelMarket_partial [OF h1 this]
  obtain res err c' w' t' where
    out: "CancelMarket venue ''ETH_USDT'' trading_client world0 = (Return (res, err), c', w')" and
    tr: "Tracker c' = Some t'" and
    ids: "\<forall>k<length res. OrderID (res ! k) = OrderID (three_orders ! k) \<and>
                            Status (res ! k) = StatusCancelled" and
    other: "\<forall>j. j \<notin> OrderID ` set (take (length res) three_orders) \<longrightarrow>
                entries j t' = entries j three_orders"
    by blast
  from out have res: "length res = 1" and err: "err = Some (RemoteError ''cancel refused'')"
    by (auto simp add: CancelMarket_three_orders)
  from ids res have "OrderID (res ! 0) = 1 \<and> Status (res ! 0) = StatusCancelled"
    by (simp add: three_orders_def)
  moreover from other res have "entries 2 t' = entries 2 three_orders \<and>
                                entries 3 t' = entries 3 three_orders"
    by (simp add: three_orders_def)
  ultimately show ?thesis
    using h1 h2 out tr res err by blast
qed

subsection \<open>The order-status sweep\<close>


lemma entries_UpdateOrderDetails_other:
  "j \<noteq> i \<Longrightarrow> entries j (OrderTracker_UpdateOrderDetails i symbol at t) = entries j t"
  by (induction t) (simp_all add: entries_def OrderTracker_UpdateOrderDetails_def)


lemma entries_Complete_other:
  "j \<noteq> i \<Longrightarrow> entries j (OrderTracker_Complete i at t) = entries j t"
  by (induction t) (simp_all add: entries_def OrderTracker_Complete_def)








subsection \<open>Orders that are completed or cancelled\<close>





subsection \<open>The balance of a currency\<close>






subsection \<open>The token of the book sweep\<close>

lemma bookStore_keeps:
  assumes "bookStore symb orders c = (r, c')"
  shows "sem c' = sem c" "Tracker c' = Tracker c"
    "OrderBookTracker c' = None \<longleftrightarrow> OrderBookTracker c = None"
    "r = Panic \<longleftrightarrow> OrderBookTracker c = None"
  using assms by (auto simp add: bookStore_def split: option.splits)

lemma applyOrder_keeps:
  assumes "applyOrder g symbol status order c w = (r, c', w')"
  shows "sem c' = sem c" "OrderBookTracker c' = OrderBookTracker c"
    "Tracker c' = None \<longleftrightarrow> Tracker c = None"
    "r = Panic \<longrightarrow> Tracker c = None"
  using assms
  by (auto simp add: applyOrder_def Let_def split: option.splits if_splits prod.splits)

lemma guarded_Update: "guarded (Update c w)"
  by (simp add: guarded_def Update_def)

lemma guarded_step:
  assumes "step g s s'" and "guarded s"
  shows "guarded s'"
  using assms
proof (cases rule: step.cases)
  case (book_stored xs ts symb orders us ys r c')
  with assms(2) bookStore_keeps [OF book_stored(4)] show ?thesis
    by (simp add: guarded_def)
next
  case (status_applied ts symbol status order orders us r c' w')
  with assms(2) applyOrder_keeps [OF status_applied(4)] show ?thesis
    by (auto simp add: guarded_def)
qed (auto simp add: guarded_def checkUpdate_def)

lemma reachable_guarded: "reachable g c w s \<Longrightarrow> guarded s"
  by (induction rule: reachable.induct) (auto intro: guarded_Update guarded_step)

text \<open>
  No step panics: the only state of a run that has panicked is the first, when the ticker
  could not be made.
\<close>

lemma step_keeps_running:
  assumes "step g s s'" and "guarded s"
  shows "\<not> crashed s'"
  using assms
proof (cases rule: step.cases)
  case (book_stored xs ts symb orders us ys r c')
  with assms(2) bookStore_keeps(4) [OF book_stored(4)] show ?thesis
    by (simp add: guarded_def)
next
  case (status_applied ts symbol status order orders us r c' w')
  with assms(2) applyOrder_keeps(4) [OF status_applied(4)] show ?thesis
    by (auto simp add: guarded_def)
qed (simp_all add: checkUpdate_def)

lemma reachable_crashed:
  assumes "reachable g c w s" and "crashed s"
  shows "s = Update c w \<and> period c \<le> 0"
  using assms
proof (cases rule: reachable.cases)
  case at_start
  with assms(2) show ?thesis
    by (simp add: Update_def)
next
  case (after_step s0)
  then have "\<not> crashed s"
    using step_keeps_running [of g s0 s] reachable_guarded [of g c w s0] by simp
  with assms(2) show ?thesis
    by simp
qed

lemma period_book_client: "period book_client = 1000000000"
  by (simp add: period_def book_client_def client0_def)













text \<open>
  Two ticks in a row on the book-only client: the sweep of the first tick is in flight
  with its two tasks, for two symbols, and the sweep of the second waits.
\<close>

lemma reachable_two_ticks: "reachable venue book_client world0 two_ticks"
proof -
  have 0: "reachable venue book_client world0 (Update book_client world0)"
    by (rule reachable.at_start)
  have "step venue (Update book_client world0) (checkUpdate venue (Update book_client world0))"
    by (rule step.tick) (simp_all add: Update_def period_book_client)
  moreover have "checkUpdate venue (Update book_client world0) = one_tick"
    using period_book_client
    by (simp add: checkUpdate_def Update_def one_tick_def book_client_def client0_def)
  ultimately have "step venue (Update book_client world0) one_tick"
    by simp
  with 0 have 1: "reachable venue book_client world0 one_tick"
    by (rule reachable.after_step)
  have "step venue one_tick
          (one_tick\<lparr>client := (client one_tick)\<lparr>sem := Some 1\<rparr>,
                    sweeps := [] @ Fetching (map BookFetch (allowed venue)) # []\<rparr>)"
    by (rule step.acquire) (simp_all add: one_tick_def)
  moreover have "one_tick\<lparr>client := (client one_tick)\<lparr>sem := Some 1\<rparr>,
                    sweeps := [] @ Fetching (map BookFetch (allowed venue)) # []\<rparr> = sweeping"
    by (simp add: one_tick_def sweeping_def venue_def)
  ultimately have "step venue one_tick sweeping"
    by simp
  with 1 have 2: "reachable venue book_client world0 sweeping"
    by (rule reachable.after_step)
  have "step venue sweeping (checkUpdate venue sweeping)"
    by (rule step.tick) (simp_all add: sweeping_def)
  moreover have "checkUpdate venue sweeping = two_ticks"
    by (simp add: checkUpdate_def sweeping_def two_ticks_def book_client_def client0_def)
  ultimately have "step venue sweeping two_ticks"
    by simp
  with 2 show ?thesis
    by (rule reachable.after_step)
qed


subsection \<open>The book sweep\<close>

lemma bookTask_failed:
  "GetOrderBook g symb w = (Inl err, w') \<Longrightarrow> bookTask g symb c w = (Return (), c, w')"
  by (simp add: bookTask_def)

lemma bookTask_fetched:
  "GetOrderBook g symb w = (Inr orders, w') \<Longrightarrow> OrderBookTracker c = Some b \<Longrightarrow>
   bookTask g symb c w =
     (Return (), c\<lparr>OrderBookTracker := Some (b(symb \<mapsto> \<lparr>Bids = Bids orders, Asks = Asks orders\<rparr>))\<rparr>,
      w')"
  by (simp add: bookTask_def bookStore_def UpdateSym_def)

lemma bookTask_snapshot:
  assumes "OrderBookTracker c = Some b"
  shows "\<exists>b'. bookTask g symb c w
                = (Return (), c\<lparr>OrderBookTracker := Some b'\<rparr>, snd (GetOrderBook g symb w)) \<and>
              b' symb = snapshot_after (fst (GetOrderBook g symb w)) (b symb) \<and>
              (\<forall>x. x \<noteq> symb \<longrightarrow> b' x = b x)"
proof (cases "GetOrderBook g symb w")
  case (Pair r w')
  show ?thesis
  proof (cases r)
    case (Inl err)
    with Pair assms have "bookTask g symb c w = (Return (), c\<lparr>OrderBookTracker := Some b\<rparr>, w')"
      by (simp add: bookTask_failed)
    with Pair Inl show ?thesis
      by (intro exI [of _ b]) (simp add: snapshot_after_def)
  next
    case (Inr orders)
    with Pair assms show ?thesis
      by (intro exI [of _ "b(symb \<mapsto> \<lparr>Bids = Bids orders, Asks = Asks orders\<rparr>)"])
         (simp add: bookTask_fetched snapshot_after_def)
  qed
qed

lemma bookTasks_snapshots:
  assumes "OrderBookTracker c = Some b"
  shows "\<exists>b' w'. bookTasks g symbs c w = (Return (), c\<lparr>OrderBookTracker := Some b'\<rparr>, w') \<and>
           (\<forall>x. x \<notin> set symbs \<longrightarrow> b' x = b x) \<and>
           (distinct symbs \<longrightarrow>
              (\<forall>k<length symbs.
                 b' (symbs ! k) = snapshot_after (bookFetches g symbs w ! k) (b (symbs ! k))))"
  using assms
proof (induction symbs arbitrary: c w b)
  case Nil
  then have "c\<lparr>OrderBookTracker := Some b\<rparr> = c" by simp
  then show ?case by (intro exI [of _ b] exI [of _ w]) simp
next
  case (Cons y ys)
  obtain r w1 where f: "GetOrderBook g y w = (r, w1)"
    by (cases "GetOrderBook g y w")
  from bookTask_snapshot [OF Cons.prems, of g y w] f obtain b1 where
    t: "bookTask g y c w = (Return (), c\<lparr>OrderBookTracker := Some b1\<rparr>, w1)" and
    y: "b1 y = snapshot_after r (b y)" and
    o: "\<forall>x. x \<noteq> y \<longrightarrow> b1 x = b x"
    by auto
  let ?c1 = "c\<lparr>OrderBookTracker := Some b1\<rparr>"
  have "OrderBookTracker ?c1 = Some b1" by simp
  from Cons.IH [OF this, of w1] obtain b' w' where
    run: "bookTasks g ys ?c1 w1 = (Return (), ?c1\<lparr>OrderBookTracker := Some b'\<rparr>, w')" and
    out: "\<forall>x. x \<notin> set ys \<longrightarrow> b' x = b1 x" and
    at: "distinct ys \<longrightarrow>
           (\<forall>k<length ys. b' (ys ! k) = snapshot_after (bookFetches g ys w1 ! k) (b1 (ys ! k)))"
    by blast
  have 1: "bookTasks g (y # ys) c w = (Return (), c\<lparr>OrderBookTracker := Some b'\<rparr>, w')"
    using t run by simp
  have 2: "\<forall>x. x \<notin> set (y # ys) \<longrightarrow> b' x = b x"
    using out o by simp
  have 3: "distinct (y # ys) \<longrightarrow>
             (\<forall>k<length (y # ys).
                b' ((y # ys) ! k) = snapshot_after (bookFetches g (y # ys) w ! k) (b ((y # ys) ! k)))"
  proof (intro impI allI)
    fix k
    assume d: "distinct (y # ys)" and k: "k < length (y # ys)"
    show "b' ((y # ys) ! k) = snapshot_after (bookFetches g (y # ys) w ! k) (b ((y # ys) ! k))"
    proof (cases k)
      case 0
      from d have "y \<notin> set ys" by simp
      with out y have "b' y = snapshot_after r (b y)" by simp
      with 0 f show ?thesis by simp
    next
      case (Suc j)
      with k have j: "j < length ys" by simp
      with d have "ys ! j \<noteq> y" by auto
      with o have "b1 (ys ! j) = b (ys ! j)" by simp
      moreover from at d j have
        "b' (ys ! j) = snapshot_after (bookFetches g ys w1 ! j) (b1 (ys ! j))" by simp
      ultimately show ?thesis using Suc f by simp
    qed
  qed
  from 1 2 3 show ?case by blast
qed

lemma fetched_Update: "fetched g (Update c w)"
  by (simp add: fetched_def Update_def tasks_in_flight_def)

lemma fetched_step:
  assumes "step g s s'" and "fetched g s"
  shows "fetched g s'"
  using assms
proof (cases rule: step.cases)
  case (book_fetched xs ts symb us ys orders w')
  with assms(2) show ?thesis
    by (auto simp add: fetched_def tasks_in_flight_def)
next
  case (acquire xs ys)
  with assms(2) show ?thesis
    by (auto simp add: fetched_def tasks_in_flight_def)
qed (auto simp add: fetched_def tasks_in_flight_def checkUpdate_def)

lemma reachable_fetched: "reachable g c w s \<Longrightarrow> fetched g s"
  by (induction rule: reachable.induct) (auto intro: fetched_Update fetched_step)

lemma books_step:
  assumes "step g s s'"
  shows "OrderBookTracker (client s') = OrderBookTracker (client s) \<or>
         (\<exists>symb orders b. BookStore symb orders \<in> set (tasks_in_flight s) \<and>
            OrderBookTracker (client s) = Some b \<and>
            OrderBookTracker (client s') =
              Some (b(symb \<mapsto> \<lparr>Bids = Bids orders, Asks = Asks orders\<rparr>)))"
  using assms
proof (cases rule: step.cases)
  case (book_stored xs ts symb orders us ys r c')
  then have mem: "BookStore symb orders \<in> set (tasks_in_flight s)"
    by (simp add: tasks_in_flight_def)
  show ?thesis
  proof (cases "OrderBookTracker (client s)")
    case None
    with book_stored show ?thesis
      by (auto simp add: bookStore_def)
  next
    case (Some b)
    with book_stored have
      "OrderBookTracker (client s') = Some (b(symb \<mapsto> \<lparr>Bids = Bids orders, Asks = Asks orders\<rparr>))"
      by (auto simp add: bookStore_def UpdateSym_def)
    with Some mem show ?thesis
      by blast
  qed
next
  case (status_applied ts symbol status order orders us r c' w')
  with applyOrder_keeps(2) [OF status_applied(4)] show ?thesis
    by simp
qed (simp_all add: checkUpdate_def)

text \<open>
  C7. On a client with an order-book tracker, the tasks of a book sweep, one for each of
  the symbols, never fail: they return, and no error comes out of them. Afterwards the
  snapshot of a symbol that was not polled is what it was; when the symbols are distinct,
  the snapshot of a polled symbol is the book its fetch returned, bids and asks, nothing
  kept of the old one, when the fetch succeeded, and what it was when the fetch failed.
  In a run of \<^verbatim>\<open>Update\<close>, whatever the interleaving, no step panics, and a step changes the
  order-book tracker only by replacing the snapshot of one symbol with a book that a fetch
  for this symbol returned.
\<close>

theorem book_sweep_isolation:
  assumes "OrderBookTracker c = Some b"
  shows
    "(\<exists>b' w'. bookTasks g symbs c w = (Return (), c\<lparr>OrderBookTracker := Some b'\<rparr>, w') \<and>
        (\<forall>x. x \<notin> set symbs \<longrightarrow> b' x = b x) \<and>
        (distinct symbs \<longrightarrow>
           (\<forall>k<length symbs.
              b' (symbs ! k) =
                (case bookFetches g symbs w ! k of
                   Inl err \<Rightarrow> b (symbs ! k)
                 | Inr orders \<Rightarrow> Some \<lparr>Bids = Bids orders, Asks = Asks orders\<rparr>)))) \<and>
     (\<forall>s s'. reachable g c w s \<and> step g s s' \<longrightarrow>
        \<not> crashed s' \<and>
        (OrderBookTracker (client s') = OrderBookTracker (client s) \<or>
         (\<exists>symb orders b0 w0 w1.
            GetOrderBook g symb w0 = (Inr orders, w1) \<and>
            OrderBookTracker (client s) = Some b0 \<and>
            OrderBookTracker (client s') =
              Some (b0(symb \<mapsto> \<lparr>Bids = Bids orders, Asks = Asks orders\<rparr>)))))"
proof (intro conjI allI impI)
  from bookTasks_snapshots [OF assms, of g symbs w]
  show "\<exists>b' w'. bookTasks g symbs c w = (Return (), c\<lparr>OrderBookTracker := Some b'\<rparr>, w') \<and>
        (\<forall>x. x \<notin> set symbs \<longrightarrow> b' x = b x) \<and>
        (distinct symbs \<longrightarrow>
           (\<forall>k<length symbs.
              b' (symbs ! k) =
                (case bookFetches g symbs w ! k of
                   Inl err \<Rightarrow> b (symbs ! k)
                 | Inr orders \<Rightarrow> Some \<lparr>Bids = Bids orders, Asks = Asks orders\<rparr>)))"
    unfolding snapshot_after_def .
next
  fix s s'
  assume h: "reachable g c w s \<and> step g s s'"
  then show "\<not> crashed s'"
    using step_keeps_running [of g s s'] reachable_guarded [of g c w s] by simp
  from h have f: "fetched g s"
    by (auto intro: reachable_fetched)
  from h books_step [of g s s'] consider
    "OrderBookTracker (client s') = OrderBookTracker (client s)"
    | symb orders b0 where "BookStore symb orders \<in> set (tasks_in_flight s)"
        "OrderBookTracker (client s) = Some b0"
        "OrderBookTracker (client s') =
           Some (b0(symb \<mapsto> \<lparr>Bids = Bids orders, Asks = Asks orders\<rparr>))"
    by blast
  then show "OrderBookTracker (client s') = OrderBookTracker (client s) \<or>
         (\<exists>symb orders b0 w0 w1.
            GetOrderBook g symb w0 = (Inr orders, w1) \<and>
            OrderBookTracker (client s) = Some b0 \<and>
            OrderBookTracker (client s') =
              Some (b0(symb \<mapsto> \<lparr>Bids = Bids orders, Asks = Asks orders\<rparr>)))"
  proof cases
    case 1
    then show ?thesis by simp
  next
    case 2
    from f 2(1) obtain w0 w1 where "GetOrderBook g symb w0 = (Inr orders, w1)"
      unfolding fetched_def by blast
    with 2 show ?thesis by blast
  qed
qed

text \<open>
  The scenario of the spec: the fetch for \<^verbatim>\<open>btc_usdt\<close> fails and the fetch for \<^verbatim>\<open>eth_usdt\<close>
  succeeds in the same cycle.
\<close>

theorem book_sweep_isolation_witness:
  "OrderBookTracker books_client = Some [''btc_usdt'' \<mapsto> old_book, ''eth_usdt'' \<mapsto> old_book] \<and>
   distinct (allowed venue) \<and>
   bookFetches venue (allowed venue) world0 = [Inl (RemoteError ''timeout''), Inr venue_book] \<and>
   (\<exists>b' w'. bookTasks venue (allowed venue) books_client world0
               = (Return (), books_client\<lparr>OrderBookTracker := Some b'\<rparr>, w') \<and>
            b' ''btc_usdt'' = Some old_book \<and> b' ''eth_usdt'' = Some venue_book)"
proof -
  let ?b = "[''btc_usdt'' \<mapsto> old_book, ''eth_usdt'' \<mapsto> old_book]"
  have h: "OrderBookTracker books_client = Some ?b"
    by (simp add: books_client_def)
  have d: "distinct (allowed venue)" and a: "allowed venue = [''btc_usdt'', ''eth_usdt'']"
    by (simp_all add: venue_def)
  have f: "bookFetches venue (allowed venue) world0 = [Inl (RemoteError ''timeout''), Inr venue_book]"
    by (simp add: venue_def)
  from book_sweep_isolation [OF h, of venue "allowed venue" world0] d obtain b' w' where
    run: "bookTasks venue (allowed venue) books_client world0
            = (Return (), books_client\<lparr>OrderBookTracker := Some b'\<rparr>, w')" and
    at: "\<forall>k<length (allowed venue).
           b' (allowed venue ! k) =
             (case bookFetches venue (allowed venue) world0 ! k of
                Inl err \<Rightarrow> ?b (allowed venue ! k)
              | Inr orders \<Rightarrow> Some \<lparr>Bids = Bids orders, Asks = Asks orders\<rparr>)"
    by blast
  from at [rule_format, of 0] have "b' ''btc_usdt'' = Some old_book"
    by (simp add: venue_def)
  moreover from at [rule_format, of 1] have "b' ''eth_usdt'' = Some venue_book"
    by (simp add: venue_def venue_book_def)
  ultimately show ?thesis
    using h d f run by blast
qed

subsection \<open>A failed fetch of the order-status sweep\<close>

lemma statusTask_failed:
  "GetOrderByStatus g (Key c) (Secret c) symbol status (- 1) w = (Inl err, w') \<Longrightarrow>
   statusTask g symbol status c w =
     (Return (), c, Warningf g ''c2cx: update order info failed %s'' err w')"
  by (simp add: statusTask_def statusFetch_def)

lemma same_Tracker: "Tracker c = Some t \<Longrightarrow> \<exists>t'. c = c\<lparr>Tracker := Some t'\<rparr>"
  by (rule exI [of _ t]) simp

lemma applyOrder_returns:
  assumes "Tracker c = Some t"
  shows "\<exists>t' w'. applyOrder g symbol status order c w = (Return (), c\<lparr>Tracker := Some t'\<rparr>, w')"
  using assms same_Tracker [OF assms]
  by (auto simp add: applyOrder_def Let_def split: prod.splits)

lemma applyOrders_returns:
  assumes "Tracker c = Some t"
  shows "\<exists>t' w'. applyOrders g symbol status orders c w = (Return (), c\<lparr>Tracker := Some t'\<rparr>, w')"
  using assms
proof (induction orders arbitrary: c w t)
  case Nil
  then have "c\<lparr>Tracker := Some t\<rparr> = c" by simp
  then show ?case by (intro exI [of _ t] exI [of _ w]) simp
next
  case (Cons x xs)
  from applyOrder_returns [OF Cons.prems, of g symbol status x w] obtain t1 w1 where
    1: "applyOrder g symbol status x c w = (Return (), c\<lparr>Tracker := Some t1\<rparr>, w1)"
    by blast
  have "Tracker (c\<lparr>Tracker := Some t1\<rparr>) = Some t1" by simp
  from Cons.IH [OF this, of w1] obtain t' w' where
    "applyOrders g symbol status xs (c\<lparr>Tracker := Some t1\<rparr>) w1
       = (Return (), c\<lparr>Tracker := Some t1\<rparr>\<lparr>Tracker := Some t'\<rparr>, w')"
    by blast
  with 1 have "applyOrders g symbol status (x # xs) c w = (Return (), c\<lparr>Tracker := Some t'\<rparr>, w')"
    by simp
  then show ?case by blast
qed

lemma statusTask_returns:
  assumes "Tracker c = Some t"
  shows "\<exists>t' w'. statusTask g symbol status c w = (Return (), c\<lparr>Tracker := Some t'\<rparr>, w')"
proof (cases "statusFetch g symbol status c w")
  case (Pair r w1)
  show ?thesis
  proof (cases r)
    case None
    have "c\<lparr>Tracker := Some t\<rparr> = c" using assms by simp
    with None Pair show ?thesis
      by (intro exI [of _ t] exI [of _ w1]) (simp add: statusTask_def)
  next
    case (Some orders)
    with Pair applyOrders_returns [OF assms, of g symbol status orders w1] show ?thesis
      by (simp add: statusTask_def)
  qed
qed

lemma statusTasks_returns:
  assumes "Tracker c = Some t"
  shows "\<exists>t' w'. statusTasks g pairs c w = (Return (), c\<lparr>Tracker := Some t'\<rparr>, w')"
  using assms
proof (induction pairs arbitrary: c w t)
  case Nil
  then have "c\<lparr>Tracker := Some t\<rparr> = c" by simp
  then show ?case by (intro exI [of _ t] exI [of _ w]) simp
next
  case (Cons p ps)
  obtain symbol status where p: "p = (symbol, status)" by (cases p)
  from statusTask_returns [OF Cons.prems, of g symbol status w] obtain t1 w1 where
    1: "statusTask g symbol status c w = (Return (), c\<lparr>Tracker := Some t1\<rparr>, w1)"
    by blast
  have "Tracker (c\<lparr>Tracker := Some t1\<rparr>) = Some t1" by simp
  from Cons.IH [OF this, of w1] obtain t' w' where
    "statusTasks g ps (c\<lparr>Tracker := Some t1\<rparr>) w1
       = (Return (), c\<lparr>Tracker := Some t1\<rparr>\<lparr>Tracker := Some t'\<rparr>, w')"
    by blast
  with 1 p have "statusTasks g (p # ps) c w = (Return (), c\<lparr>Tracker := Some t'\<rparr>, w')"
    by simp
  then show ?case by blast
qed

lemma statusTasks_append:
  "statusTasks g (ps @ qs) c w =
     (case statusTasks g ps c w of
        (Panic, c', w') \<Rightarrow> (Panic, c', w')
      | (Return u, c', w') \<Rightarrow> statusTasks g qs c' w')"
  by (induction ps arbitrary: c w) (auto split: prod.splits go.splits)

lemma statusTasks_skip_failed:
  assumes "statusTasks g ps c w = (Return (), c1, w1)"
    and "GetOrderByStatus g (Key c1) (Secret c1) symbol status (- 1) w1 = (Inl err, w2)"
  shows "statusTasks g (ps @ (symbol, status) # qs) c w =
           statusTasks g qs c1 (Warningf g ''c2cx: update order info failed %s'' err w2)"
  using assms by (simp add: statusTasks_append statusTask_failed)

lemma scheduler_returns_on_stop:
  "step g s s' \<Longrightarrow> scheduler s' = Returned \<Longrightarrow> scheduler s = Selecting \<or> scheduler s = Returned"
  by (cases rule: step.cases) (auto simp add: checkUpdate_def split: if_splits)

lemma status_fetch_failed_step:
  assumes "\<not> crashed s" and "scheduler s = Waiting (ts @ StatusFetch symbol status # us)"
    and "GetOrderByStatus g (Key (client s)) (Secret (client s)) symbol status (- 1) (world s)
           = (Inl err, w')"
  shows "step g s (s\<lparr>world := Warningf g ''c2cx: update order info failed %s'' err w',
                     scheduler := Waiting (ts @ us)\<rparr>)"
proof -
  from assms(3) have "statusFetch g symbol status (client s) (world s)
                        = (None, Warningf g ''c2cx: update order info failed %s'' err w')"
    by (simp add: statusFetch_def)
  with assms(1,2) show ?thesis
    by (rule step.status_fetch_failed)
qed

text \<open>
  C8. On a client with an order tracker, a status task whose fetch fails logs the error
  with \<^verbatim>\<open>logger.Warningf\<close> and returns: the client, so the tracker, is what it was, and no
  error comes out of the task. The tasks of a sweep, run one after the other, all return;
  when the fetch of one pair fails, the tasks after it run as they would without it, from
  the tracker the tasks before it left. In a run of \<^verbatim>\<open>Update\<close>, whatever the interleaving,
  no step panics, the scheduler ends only from its \<^verbatim>\<open>select\<close>, by \<^verbatim>\<open>Stop\<close>, and the step of a
  failing fetch removes this task alone from those the scheduler waits for and leaves the
  client as it was.
\<close>

theorem status_sweep_failure_isolated:
  assumes "Tracker c = Some t"
  shows
    "(\<forall>err w'. GetOrderByStatus g (Key c) (Secret c) symbol status (- 1) w = (Inl err, w')
        \<longrightarrow> statusTask g symbol status c w
              = (Return (), c, Warningf g ''c2cx: update order info failed %s'' err w')) \<and>
     (\<exists>t' w'. statusTasks g pairs c w = (Return (), c\<lparr>Tracker := Some t'\<rparr>, w')) \<and>
     (\<forall>ps qs c1 w1 err w2.
        pairs = ps @ (symbol, status) # qs \<and>
        statusTasks g ps c w = (Return (), c1, w1) \<and>
        GetOrderByStatus g (Key c1) (Secret c1) symbol status (- 1) w1 = (Inl err, w2)
        \<longrightarrow> statusTasks g pairs c w =
              statusTasks g qs c1 (Warningf g ''c2cx: update order info failed %s'' err w2)) \<and>
     (\<forall>s s'. reachable g c w s \<and> step g s s'
        \<longrightarrow> \<not> crashed s' \<and>
            (scheduler s' = Returned \<longrightarrow> scheduler s = Selecting \<or> scheduler s = Returned)) \<and>
     (\<forall>s ts us err w'.
        reachable g c w s \<and> scheduler s = Waiting (ts @ StatusFetch symbol status # us) \<and>
        GetOrderByStatus g (Key (client s)) (Secret (client s)) symbol status (- 1) (world s)
          = (Inl err, w')
        \<longrightarrow> step g s (s\<lparr>world := Warningf g ''c2cx: update order info failed %s'' err w',
                         scheduler := Waiting (ts @ us)\<rparr>))"
proof (intro conjI allI impI)
  fix err w'
  assume "GetOrderByStatus g (Key c) (Secret c) symbol status (- 1) w = (Inl err, w')"
  then show "statusTask g symbol status c w
               = (Return (), c, Warningf g ''c2cx: update order info failed %s'' err w')"
    by (rule statusTask_failed)
next
  show "\<exists>t' w'. statusTasks g pairs c w = (Return (), c\<lparr>Tracker := Some t'\<rparr>, w')"
    using assms by (rule statusTasks_returns)
next
  fix ps qs c1 w1 err w2
  assume "pairs = ps @ (symbol, status) # qs \<and>
          statusTasks g ps c w = (Return (), c1, w1) \<and>
          GetOrderByStatus g (Key c1) (Secret c1) symbol status (- 1) w1 = (Inl err, w2)"
  then show "statusTasks g pairs c w =
               statusTasks g qs c1 (Warningf g ''c2cx: update order info failed %s'' err w2)"
    by (simp add: statusTasks_skip_failed)
next
  fix s s'
  assume h: "reachable g c w s \<and> step g s s'"
  then show "\<not> crashed s'"
    using step_keeps_running [of g s s'] reachable_guarded [of g c w s] by simp
  assume "scheduler s' = Returned"
  with h show "scheduler s = Selecting \<or> scheduler s = Returned"
    by (auto dest: scheduler_returns_on_stop)
next
  fix s ts us err w'
  assume h: "reachable g c w s \<and> scheduler s = Waiting (ts @ StatusFetch symbol status # us) \<and>
        GetOrderByStatus g (Key (client s)) (Secret (client s)) symbol status (- 1) (world s)
          = (Inl err, w')"
  have "\<not> crashed s"
  proof
    assume "crashed s"
    with h have "s = Update c w"
      using reachable_crashed [of g c w s] by simp
    with h show False
      by (simp add: Update_def)
  qed
  with h show "step g s (s\<lparr>world := Warningf g ''c2cx: update order info failed %s'' err w',
                         scheduler := Waiting (ts @ us)\<rparr>)"
    by (simp add: status_fetch_failed_step)
qed

text \<open>
  A sweep on the venue, where the four fetches about \<^verbatim>\<open>btc_usdt\<close> fail: four warnings are
  logged, and the tasks about \<^verbatim>\<open>eth_usdt\<close> complete order 42.
\<close>

theorem status_sweep_failure_isolated_witness:
  "Tracker placed_client = Some [order42] \<and>
   GetOrderByStatus venue (Key placed_client) (Secret placed_client) ''btc_usdt'' StatusOpened
       (- 1) world0 = (Inl (RemoteError ''timeout''), called world0) \<and>
   statusTasks venue (statusPairs venue) placed_client world0
     = (Return (),
        placed_client\<lparr>Tracker := Some [order42\<lparr>Status := StatusCompleted, CompletedAt := Some 8\<rparr>]\<rparr>,
        \<lparr>calls = 9,
         warnings = replicate 4 (''c2cx: update order info failed %s'', RemoteError ''timeout'')\<rparr>)"
proof -
  have h: "Tracker placed_client = Some [order42]"
    by (simp add: placed_client_def)
  have f: "GetOrderByStatus venue (Key placed_client) (Secret placed_client) ''btc_usdt''
             StatusOpened (- 1) world0 = (Inl (RemoteError ''timeout''), called world0)"
    by (simp add: venue_def)
  let ?qs = "[(''btc_usdt'', StatusPartial), (''btc_usdt'', StatusCancelled),
              (''btc_usdt'', StatusCompleted), (''eth_usdt'', StatusOpened),
              (''eth_usdt'', StatusPartial), (''eth_usdt'', StatusCancelled),
              (''eth_usdt'', StatusCompleted)]"
  have p: "statusPairs venue = [] @ (''btc_usdt'', StatusOpened) # ?qs"
    by (simp add: statusPairs_def venue_def)
  have e: "statusTasks venue [] placed_client world0 = (Return (), placed_client, world0)"
    by simp
  from status_sweep_failure_isolated [OF h, of venue "''btc_usdt''" StatusOpened world0
         "statusPairs venue"] p e f
  have "statusTasks venue (statusPairs venue) placed_client world0 =
          statusTasks venue ?qs placed_client
            (Warningf venue ''c2cx: update order info failed %s'' (RemoteError ''timeout'')
               (called world0))"
    by blast
  also have "\<dots> = (Return (),
        placed_client\<lparr>Tracker := Some [order42\<lparr>Status := StatusCompleted, CompletedAt := Some 8\<rparr>]\<rparr>,
        \<lparr>calls = 9,
         warnings = replicate 4 (''c2cx: update order info failed %s'', RemoteError ''timeout'')\<rparr>)"
    by (simp add: statusTask_def statusFetch_def applyOrder_def OrderTracker_Complete_def
          placed_client_def order42_def venue_simps numeral_eq_Suc)
  finally show ?thesis
    using h f by blast
qed

subsection \<open>A client without order tracker\<close>

lemma Tracker_nil_step:
  assumes "step g s s'"
  shows "Tracker (client s') = None \<longleftrightarrow> Tracker (client s) = None"
  using assms
proof (cases rule: step.cases)
  case (book_stored xs ts symb orders us ys r c')
  with bookStore_keeps(2) [OF book_stored(4)] show ?thesis by simp
next
  case (status_applied ts symbol status order orders us r c' w')
  with applyOrder_keeps(3) [OF status_applied(4)] show ?thesis by simp
qed (simp_all add: checkUpdate_def)

lemma reachable_Tracker_nil:
  "reachable g c w s \<Longrightarrow> Tracker (client s) = None \<longleftrightarrow> Tracker c = None"
  by (induction rule: reachable.induct) (simp_all add: Update_def Tracker_nil_step)

lemma place_panics:
  assumes "Tracker c = None"
  shows "fst (place g side action symbol price amount c w) = Panic \<longleftrightarrow>
           (\<exists>symbol' i w'. normalize g symbol = Inr symbol' \<and>
              CreateOrder g (Key c) (Secret c) symbol' side PriceTypeMarket amount 1 price w
                = (Inr i, w'))"
    and "normalize g symbol = Inr symbol' \<Longrightarrow>
         CreateOrder g (Key c) (Secret c) symbol' side PriceTypeMarket amount 1 price w
           = (Inr i, w') \<Longrightarrow>
         place g side action symbol price amount c w = (Panic, c, w')"
  using assms by (auto simp add: place_def split: sum.splits prod.splits)

text \<open>
  C10. On a client whose \<^verbatim>\<open>Tracker\<close> is \<^verbatim>\<open>nil\<close>, every trading and introspection method
  that reaches its tracker call panics: \<^verbatim>\<open>Cancel\<close> once the remote cancel succeeded,
  \<^verbatim>\<open>CancelAll\<close>, \<^verbatim>\<open>CancelMarket\<close> once the symbol is normalised, \<^verbatim>\<open>OrderStatus\<close>,
  \<^verbatim>\<open>OrderDetails\<close>, \<^verbatim>\<open>Executed\<close> and \<^verbatim>\<open>Completed\<close>. \<^verbatim>\<open>Buy\<close> and \<^verbatim>\<open>Sell\<close> panic exactly when
  the remote placement succeeded, in the world this placement left. The sweep is guarded:
  \<^verbatim>\<open>checkUpdate\<close> starts no status task and waits for none (and no book sweep either
  without order-book tracker), and no state of a run has panicked, but the first when
  the ticker could not be made.
\<close>

theorem nil_Tracker_panics:
  assumes "Tracker c = None"
  shows
    "(\<forall>w'. CancelOrder g (Key c) (Secret c) i w = (None, w')
        \<longrightarrow> Cancel g i c w = (Panic, c, w')) \<and>
     CancelAll g c w = (Panic, c, w) \<and>
     (\<forall>symbol'. normalize g symbol = Inr symbol' \<longrightarrow> CancelMarket g symbol c w = (Panic, c, w)) \<and>
     (fst (Buy g symbol price amount c w) = Panic \<longleftrightarrow>
        (\<exists>symbol' j w'. normalize g symbol = Inr symbol' \<and>
           CreateOrder g (Key c) (Secret c) symbol' ''buy'' PriceTypeMarket amount 1 price w
             = (Inr j, w'))) \<and>
     (\<forall>symbol' j w'. normalize g symbol = Inr symbol' \<and>
        CreateOrder g (Key c) (Secret c) symbol' ''buy'' PriceTypeMarket amount 1 price w
          = (Inr j, w')
        \<longrightarrow> Buy g symbol price amount c w = (Panic, c, w')) \<and>
     (fst (Sell g symbol price amount c w) = Panic \<longleftrightarrow>
        (\<exists>symbol' j w'. normalize g symbol = Inr symbol' \<and>
           CreateOrder g (Key c) (Secret c) symbol' ''sell'' PriceTypeMarket amount 1 price w
             = (Inr j, w'))) \<and>
     (\<forall>symbol' j w'. normalize g symbol = Inr symbol' \<and>
        CreateOrder g (Key c) (Secret c) symbol' ''sell'' PriceTypeMarket amount 1 price w
          = (Inr j, w')
        \<longrightarrow> Sell g symbol price amount c w = (Panic, c, w')) \<and>
     OrderStatus i c = Panic \<and> OrderDetails i c = Panic \<and>
     Executed c = Panic \<and> Completed c = Panic \<and>
     (\<forall>s. client s = c \<longrightarrow>
        scheduler (checkUpdate g s) = Selecting \<and> client (checkUpdate g s) = c \<and>
        crashed (checkUpdate g s) = crashed s \<and>
        (OrderBookTracker c = None \<longrightarrow> sweeps (checkUpdate g s) = sweeps s)) \<and>
     (\<forall>s. reachable g c w s \<longrightarrow>
        (crashed s \<longrightarrow> s = Update c w \<and> period c \<le> 0) \<and> (\<forall>ts. scheduler s \<noteq> Waiting ts))"
proof -
  have 1: "\<forall>w'. CancelOrder g (Key c) (Secret c) i w = (None, w')
             \<longrightarrow> Cancel g i c w = (Panic, c, w')"
    using assms by (simp add: Cancel_def)
  have 2: "CancelAll g c w = (Panic, c, w)"
    using assms by (simp add: CancelAll_def)
  have 3: "\<forall>symbol'. normalize g symbol = Inr symbol' \<longrightarrow> CancelMarket g symbol c w = (Panic, c, w)"
    using assms by (simp add: CancelMarket_def)
  note 4 = place_panics(1) [OF assms, of g "''buy''" ActionBuy symbol price amount w,
                            folded Buy_place]
  have 5: "\<forall>symbol' j w'. normalize g symbol = Inr symbol' \<and>
        CreateOrder g (Key c) (Secret c) symbol' ''buy'' PriceTypeMarket amount 1 price w
          = (Inr j, w')
        \<longrightarrow> Buy g symbol price amount c w = (Panic, c, w')"
    using place_panics(2) [OF assms, of g symbol] by (simp add: Buy_place)
  note 6 = place_panics(1) [OF assms, of g "''sell''" ActionSell symbol price amount w,
                            folded Sell_place]
  have 7: "\<forall>symbol' j w'. normalize g symbol = Inr symbol' \<and>
        CreateOrder g (Key c) (Secret c) symbol' ''sell'' PriceTypeMarket amount 1 price w
          = (Inr j, w')
        \<longrightarrow> Sell g symbol price amount c w = (Panic, c, w')"
    using place_panics(2) [OF assms, of g symbol] by (simp add: Sell_place)
  have 8: "OrderStatus i c = Panic \<and> OrderDetails i c = Panic \<and>
           Executed c = Panic \<and> Completed c = Panic"
    using assms by (simp add: OrderStatus_def OrderDetails_def Executed_def Completed_def)
  have 9: "\<forall>s. client s = c \<longrightarrow>
        scheduler (checkUpdate g s) = Selecting \<and> client (checkUpdate g s) = c \<and>
        crashed (checkUpdate g s) = crashed s \<and>
        (OrderBookTracker c = None \<longrightarrow> sweeps (checkUpdate g s) = sweeps s)"
    using assms by (simp add: checkUpdate_def)
  have 10: "\<forall>s. reachable g c w s \<longrightarrow>
        (crashed s \<longrightarrow> s = Update c w \<and> period c \<le> 0) \<and> (\<forall>ts. scheduler s \<noteq> Waiting ts)"
  proof (intro allI impI)
    fix s assume r: "reachable g c w s"
    then have "guarded s" by (rule reachable_guarded)
    moreover from r assms have "Tracker (client s) = None"
      by (simp add: reachable_Tracker_nil)
    ultimately have "\<forall>ts. scheduler s \<noteq> Waiting ts"
      by (auto simp add: guarded_def)
    moreover from r have "crashed s \<longrightarrow> s = Update c w \<and> period c \<le> 0"
      using reachable_crashed [of g c w s] by simp
    ultimately show "(crashed s \<longrightarrow> s = Update c w \<and> period c \<le> 0) \<and>
                     (\<forall>ts. scheduler s \<noteq> Waiting ts)"
      by simp
  qed
  from 1 2 3 4 5 6 7 8 9 10 show ?thesis
    by blast
qed

theorem nil_Tracker_panics_witness:
  "Tracker book_client = None \<and>
   normalize venue ''ETH_USDT'' = Inr ''eth_usdt'' \<and>
   CreateOrder venue (Key book_client) (Secret book_client) ''eth_usdt'' ''buy'' PriceTypeMarket
       0x3FF0000000000000 1 0x4059000000000000 world0 = (Inr 42, called world0) \<and>
   Buy venue ''ETH_USDT'' 0x4059000000000000 0x3FF0000000000000 book_client world0
     = (Panic, book_client, called world0) \<and>
   Cancel venue 42 book_client world0 = (Panic, book_client, called world0) \<and>
   \<not> crashed two_ticks"
proof -
  have h: "Tracker book_client = None"
    by (simp add: book_client_def)
  have n: "normalize venue ''ETH_USDT'' = Inr ''eth_usdt''"
    by (simp add: venue_def)
  have p: "CreateOrder venue (Key book_client) (Secret book_client) ''eth_usdt'' ''buy''
             PriceTypeMarket 0x3FF0000000000000 1 0x4059000000000000 world0
           = (Inr 42, called world0)"
    by (simp add: venue_def world0_def)
  have x: "CancelOrder venue (Key book_client) (Secret book_client) 42 world0
           = (None, called world0)"
    by (simp add: venue_def)
  note inst = nil_Tracker_panics [OF h, of venue 42 world0 "''ETH_USDT''"
      "0x4059000000000000" "0x3FF0000000000000"]
  from inst n p have "Buy venue ''ETH_USDT'' 0x4059000000000000 0x3FF0000000000000 book_client world0
     = (Panic, book_client, called world0)"
    by blast
  moreover from inst x have "Cancel venue 42 book_client world0 = (Panic, book_client, called world0)"
    by blast
  moreover have "\<not> crashed two_ticks"
  proof -
    from inst reachable_two_ticks have "crashed two_ticks \<longrightarrow> period book_client \<le> 0"
      by blast
    then show ?thesis
      by (simp add: period_book_client)
  qed
  ultimately show ?thesis
    using h n p by blast
qed

end
